theory Spec2Isabelle
  imports Main
begin

section \<open>The file system the services run on\<close>

text \<open>
  Both services (\<^verbatim>\<open>services/local_papers.ts\<close> and \<^verbatim>\<open>services/docling.ts\<close>)
  keep all of their state on disk and reach it through Node's \<^verbatim>\<open>fs\<close> module. The model
  of that module: a disk is a map from absolute path strings to nodes, together with two sets of
  paths: those on which the operating system refuses every access (a file held open by a
  viewer, missing permissions), and those that can be read but not written (a read-only file
  or file system). A path with no node is reported missing before access is looked at. A file
  holds either raw text/bytes, or the \<^verbatim>\<open>JSON.stringify\<close> image of a value of the type
  the service stores there; \<^verbatim>\<open>JSON.parse\<close> rejects raw text and gives the stored value
  back otherwise. A directory carries the listing \<^verbatim>\<open>readdirSync\<close> returns (file name
  and text of each file in it). Parent directories of a written file are not tracked.
\<close>

datatype js_error =
    ENOENT | EISDIR | EACCES | EEXIST | EROFS
  | SyntaxError
  | TypeError
  | ExecError
  | Error string

datatype 'j file_data = Raw string | Json 'j

datatype 'j node = File "'j file_data" | Directory "(string \<times> string) list"

record 'j fs =
  nodes :: "string \<rightharpoonup> 'j node"
  denied :: "string set"
  read_only :: "string set"

definition existsSync :: "string \<Rightarrow> 'j fs \<Rightarrow> bool" where
  "existsSync p d \<longleftrightarrow> nodes d p \<noteq> None"

definition readFile :: "string \<Rightarrow> 'j fs \<Rightarrow> js_error + 'j file_data" where
  "readFile p d =
     (case nodes d p of
        None \<Rightarrow> Inl ENOENT
      | Some n \<Rightarrow>
          if p \<in> denied d then Inl EACCES
          else (case n of Directory l \<Rightarrow> Inl EISDIR | File c \<Rightarrow> Inr c))"

definition writeFile :: "string \<Rightarrow> 'j file_data \<Rightarrow> 'j fs \<Rightarrow> js_error + 'j fs" where
  "writeFile p c d =
     (if p \<in> denied d then Inl EACCES
      else if p \<in> read_only d then Inl EROFS
      else case nodes d p of
             Some (Directory l) \<Rightarrow> Inl EISDIR
           | _ \<Rightarrow> Inr (d\<lparr>nodes := (nodes d)(p \<mapsto> File c)\<rparr>))"

definition unlink :: "string \<Rightarrow> 'j fs \<Rightarrow> js_error + 'j fs" where
  "unlink p d =
     (case nodes d p of
        None \<Rightarrow> Inl ENOENT
      | Some n \<Rightarrow>
          if p \<in> denied d then Inl EACCES
          else (case n of
                  Directory l \<Rightarrow> Inl EISDIR
                | File c \<Rightarrow> Inr (d\<lparr>nodes := (nodes d)(p := None)\<rparr>)))"

text \<open>\<^verbatim>\<open>mkdir(p, {recursive: true})\<close>: an existing directory is success.\<close>

definition mkdir_recursive :: "string \<Rightarrow> 'j fs \<Rightarrow> js_error + 'j fs" where
  "mkdir_recursive p d =
     (case nodes d p of
        Some (File c) \<Rightarrow> Inl EEXIST
      | Some (Directory l) \<Rightarrow> Inr d
      | None \<Rightarrow>
          if p \<in> denied d then Inl EACCES
          else Inr (d\<lparr>nodes := (nodes d)(p \<mapsto> Directory [])\<rparr>))"

text \<open>\<^verbatim>\<open>rmSync(p, {recursive: true, force: true})\<close>: a missing path is success.\<close>

definition rmSync_recursive_force :: "string \<Rightarrow> 'j fs \<Rightarrow> js_error + 'j fs" where
  "rmSync_recursive_force p d =
     (case nodes d p of
        None \<Rightarrow> Inr d
      | Some n \<Rightarrow>
          if p \<in> denied d then Inl EACCES
          else Inr (d\<lparr>nodes := (nodes d)(p := None)\<rparr>))"

definition JSON_parse :: "'j file_data \<Rightarrow> js_error + 'j" where
  "JSON_parse c = (case c of Raw t \<Rightarrow> Inl SyntaxError | Json v \<Rightarrow> Inr v)"

definition JSON_stringify :: "'j \<Rightarrow> 'j file_data" where
  "JSON_stringify v = Json v"

text \<open>
  \<^verbatim>\<open>path.join\<close> on a directory and a relative name. Node also normalises the result
  (\<^verbatim>\<open>..\<close> segments, doubled separators); the model joins with one separator, which is what
  Node returns when the name is a plain file name.
\<close>

definition path_join :: "string \<Rightarrow> string \<Rightarrow> string" where
  "path_join a b = a @ ''/'' @ b"

definition path_dirname :: "string \<Rightarrow> string" where
  "path_dirname p = rev (drop 1 (dropWhile (\<lambda>c. c \<noteq> CHR ''/'') (rev p)))"

definition path_basename :: "string \<Rightarrow> string" where
  "path_basename p = rev (takeWhile (\<lambda>c. c \<noteq> CHR ''/'') (rev p))"


section \<open>Constants (\<^verbatim>\<open>constants/index.ts\<close>)\<close>

text \<open>
  \<^verbatim>\<open>os.homedir()\<close>, \<^verbatim>\<open>process.platform\<close> and \<^verbatim>\<open>process.cwd()\<close> are values of the
  environment; the model fixes one value for each. No general theorem below unfolds them.
\<close>

definition os_homedir :: string where
  "os_homedir = ''/home/user''"

definition process_platform :: string where
  "process_platform = ''linux''"

definition process_cwd :: string where
  "process_cwd = ''/work''"

definition application_base_directory :: string where
  "application_base_directory =
     path_join os_homedir
       (if process_platform = ''win32'' then ''AppData/Local/arxiv-reader'' else ''.arxiv-reader'')"

definition read_paper_directory :: string where
  "read_paper_directory = path_join application_base_directory ''readPapers''"

definition unread_paper_directory :: string where
  "unread_paper_directory = path_join application_base_directory ''unreadPapers''"


section \<open>Local papers (\<^verbatim>\<open>services/local_papers.ts\<close>)\<close>

subsection \<open>Types\<close>

text \<open>
  \<^verbatim>\<open>LocalPaperMetadata\<close>, as a JavaScript object: nothing checks the interface at run time,
  so any field may be missing (\<^verbatim>\<open>undefined\<close>, here \<open>None\<close>); \<^verbatim>\<open>JSON.stringify\<close> leaves
  missing fields out and \<^verbatim>\<open>JSON.parse\<close> gives them back missing.
\<close>

record local_paper_metadata =
  title :: "string option"
  abstract :: "string option"
  authors :: "string list option"
  categories :: "string list option"
  primaryCategory :: "string option"
  pdfUrl :: "string option"
  doi :: "string option"
  journalRef :: "string option"
  comment :: "string option"
  downloadedAt :: "int option"
  fileSize :: "int option"
  starred :: "bool option"
  archived :: "bool option"
  tags :: "string list option"
  published :: "string option"
  updated :: "string option"

text \<open>The object \<^verbatim>\<open>{}\<close>.\<close>

definition no_fields :: local_paper_metadata where
  "no_fields =
     \<lparr> title = None, abstract = None, authors = None, categories = None,
       primaryCategory = None, pdfUrl = None, doi = None, journalRef = None, comment = None,
       downloadedAt = None, fileSize = None, starred = None, archived = None, tags = None,
       published = None, updated = None \<rparr>"

text \<open>
  A JavaScript \<^verbatim>\<open>Date\<close> built by \<^verbatim>\<open>new Date(x)\<close> from an ISO string or from
  \<^verbatim>\<open>undefined\<close>.
\<close>

datatype js_date = Date "string option"

text \<open>
  \<^verbatim>\<open>LocalPaper\<close>. Its fields carry the prefix \<open>lp_\<close>, since a record field is a constant
  of the theory and the names are taken by \<open>local_paper_metadata\<close> (and \<open>id\<close> by HOL).
\<close>

record local_paper =
  lp_id :: string
  lp_title :: "string option"
  lp_abstract :: "string option"
  lp_authors :: "string list option"
  lp_categories :: "string list option"
  lp_primaryCategory :: "string option"
  lp_pdfUrl :: "string option"
  lp_doi :: "string option"
  lp_journalRef :: "string option"
  lp_comment :: "string option"
  lp_published :: js_date
  lp_updated :: js_date
  lp_filePath :: string
  lp_downloadedAt :: "int option"
  lp_fileSize :: "int option"
  lp_starred :: "bool option"
  lp_archived :: "bool option"
  lp_tags :: "string list option"

text \<open>
  \<^verbatim>\<open>PapersMetadataFile = Record<string, LocalPaperMetadata>\<close>: the object \<^verbatim>\<open>JSON.parse\<close>
  returns for a metadata file, by its own properties. Its prototype is
  \<^verbatim>\<open>Object.prototype\<close>. The key \<^verbatim>\<open>__proto__\<close> is never an own property: no assignment of
  the program can create it (an assignment to that key goes to the setter inherited from the
  prototype), so no metadata file the program writes holds it.
\<close>

typedef papers_metadata_file = "{m :: string \<rightharpoonup> local_paper_metadata. m ''__proto__'' = None}"
  morphisms own_entries Abs_papers_metadata_file
  by (rule exI [of _ Map.empty]) simp

setup_lifting type_definition_papers_metadata_file

type_synonym papers_fs = "papers_metadata_file fs"

text \<open>The object \<^verbatim>\<open>{}\<close> that \<^verbatim>\<open>readMetadataFile\<close> returns from its handler.\<close>

lift_definition empty_object :: papers_metadata_file is "Map.empty"
  by simp

text \<open>
  What a property read \<^verbatim>\<open>metadata[id]\<close> can give: a metadata object, or a function (the
  methods every object inherits from \<^verbatim>\<open>Object.prototype\<close>). Both are truthy.
\<close>

datatype js_value = Object local_paper_metadata | Function

text \<open>The methods of \<^verbatim>\<open>Object.prototype\<close>; its one other property is the accessor \<^verbatim>\<open>__proto__\<close>.\<close>

definition Object_prototype_methods :: "string list" where
  "Object_prototype_methods =
     [''constructor'', ''__defineGetter__'', ''__defineSetter__'', ''hasOwnProperty'',
      ''__lookupGetter__'', ''__lookupSetter__'', ''isPrototypeOf'', ''propertyIsEnumerable'',
      ''toString'', ''valueOf'', ''toLocaleString'']"

definition inherited_name :: "string \<Rightarrow> bool" where
  "inherited_name i \<longleftrightarrow> i = ''__proto__'' \<or> i \<in> set Object_prototype_methods"

text \<open>
  \<^verbatim>\<open>metadata[id]\<close>: the own property when there is one; otherwise the property is looked up
  in the prototype: \<^verbatim>\<open>__proto__\<close> gives the prototype itself (an object with none of the
  metadata fields), the name of a method gives that method, any other name gives
  \<^verbatim>\<open>undefined\<close> (\<open>None\<close>).
\<close>

definition js_get :: "papers_metadata_file \<Rightarrow> string \<Rightarrow> js_value option" where
  "js_get metadata i =
     (case own_entries metadata i of
        Some meta \<Rightarrow> Some (Object meta)
      | None \<Rightarrow>
          if i = ''__proto__'' then Some (Object no_fields)
          else if i \<in> set Object_prototype_methods then Some Function
          else None)"

text \<open>
  The metadata fields a value has: those of the object; none for a function (no field of the
  interface is a property of a function). It is what \<^verbatim>\<open>{...meta}\<close> copies and what
  \<^verbatim>\<open>meta.title\<close>, \<^verbatim>\<open>meta.tags\<close> and so on read.
\<close>

definition fields_of :: "js_value \<Rightarrow> local_paper_metadata" where
  "fields_of v = (case v of Object meta \<Rightarrow> meta | Function \<Rightarrow> no_fields)"

text \<open>\<^verbatim>\<open>delete metadata[id]\<close>: removes the own property, if there is one.\<close>

lift_definition js_delete :: "papers_metadata_file \<Rightarrow> string \<Rightarrow> papers_metadata_file" is
  "\<lambda>m i. m(i := None)"
  by simp

text \<open>
  \<^verbatim>\<open>metadata[id] = value\<close>, as \<^verbatim>\<open>JSON.stringify\<close> sees the object afterwards (every
  assignment of the program is followed by the write of the object and nothing else). For the
  key \<^verbatim>\<open>__proto__\<close> the inherited setter runs: the prototype changes and no own property
  appears. For any other key the own property is created or replaced; a property that holds a
  function is left out by \<^verbatim>\<open>JSON.stringify\<close>.
\<close>

lift_definition js_assign ::
  "papers_metadata_file \<Rightarrow> string \<Rightarrow> js_value \<Rightarrow> papers_metadata_file" is
  "\<lambda>m i v. if i = ''__proto__'' then m
            else (case v of Object meta \<Rightarrow> m(i \<mapsto> meta) | Function \<Rightarrow> m(i := None))"
  by (simp split: js_value.splits)

datatype paper_status = Unread | Read

definition METADATA_FILENAME :: string where
  "METADATA_FILENAME = ''metadata.json''"

subsection \<open>Helper functions\<close>

definition status_directory :: "paper_status \<Rightarrow> string" where
  "status_directory status =
     (if status = Unread then unread_paper_directory else read_paper_directory)"

definition metadataPath :: "paper_status \<Rightarrow> string" where
  "metadataPath status = path_join (status_directory status) METADATA_FILENAME"

text \<open>
  \<^verbatim>\<open>readMetadataFile\<close>: both the read and the parse sit in one \<^verbatim>\<open>try\<close> whose handler
  returns \<^verbatim>\<open>{}\<close>. The result is a promise, so the type allows a rejection (\<open>Inl\<close>).
\<close>

definition readMetadataFile :: "paper_status \<Rightarrow> papers_fs \<Rightarrow> js_error + papers_metadata_file" where
  "readMetadataFile status d =
     (case readFile (metadataPath status) d of
        Inl error \<Rightarrow> Inr empty_object
      | Inr rawData \<Rightarrow>
          (case JSON_parse rawData of
             Inl error \<Rightarrow> Inr empty_object
           | Inr parsed \<Rightarrow> Inr parsed))"

definition writeMetadataFile :: "paper_status \<Rightarrow> papers_metadata_file \<Rightarrow> papers_fs \<Rightarrow> js_error + papers_fs" where
  "writeMetadataFile status data d = writeFile (metadataPath status) (JSON_stringify data) d"

definition getPaperFilePath :: "string \<Rightarrow> paper_status \<Rightarrow> string" where
  "getPaperFilePath paperId status = path_join (status_directory status) (paperId @ ''.pdf'')"

definition convertMetadataToLocalPaper ::
  "string \<Rightarrow> local_paper_metadata \<Rightarrow> paper_status \<Rightarrow> local_paper" where
  "convertMetadataToLocalPaper paperId metadata status =
     \<lparr> lp_id = paperId,
       lp_title = title metadata,
       lp_abstract = abstract metadata,
       lp_authors = authors metadata,
       lp_categories = categories metadata,
       lp_primaryCategory = primaryCategory metadata,
       lp_pdfUrl = pdfUrl metadata,
       lp_doi = doi metadata,
       lp_journalRef = journalRef metadata,
       lp_comment = comment metadata,
       lp_published = Date (published metadata),
       lp_updated = Date (updated metadata),
       lp_filePath = getPaperFilePath paperId status,
       lp_downloadedAt = downloadedAt metadata,
       lp_fileSize = fileSize metadata,
       lp_starred = starred metadata,
       lp_archived = archived metadata,
       lp_tags = tags metadata \<rparr>"

text \<open>
  An operation returns its outcome (\<open>Inl\<close>: the promise rejects with that error) and the disk
  it leaves behind, also when it throws half way.
\<close>

type_synonym 'a outcome = "(js_error + 'a) \<times> papers_fs"

text \<open>
  \<^verbatim>\<open>updatePaperMetadata\<close>: the loop over \<^verbatim>\<open>['unread', 'read']\<close>, with the statuses still
  to visit as the first argument. The update function is applied to the value the property read
  gave; it sees the fields of that value, and it may throw.
\<close>

fun updatePaperMetadata_loop ::
  "paper_status list \<Rightarrow> string \<Rightarrow> (local_paper_metadata \<Rightarrow> js_error + local_paper_metadata) \<Rightarrow>
   papers_fs \<Rightarrow> unit outcome" where
  "updatePaperMetadata_loop [] paperId updateFn d = (Inr (), d)"
| "updatePaperMetadata_loop (status # rest) paperId updateFn d =
     (case readMetadataFile status d of
        Inl e \<Rightarrow> (Inl e, d)
      | Inr metadataFile \<Rightarrow>
          (case js_get metadataFile paperId of
             Some meta \<Rightarrow>
               (case updateFn (fields_of meta) of
                  Inl e \<Rightarrow> (Inl e, d)
                | Inr newMeta \<Rightarrow>
                    (case writeMetadataFile status (js_assign metadataFile paperId (Object newMeta)) d of
                       Inl e \<Rightarrow> (Inl e, d)
                     | Inr d' \<Rightarrow> (Inr (), d')))
           | None \<Rightarrow> updatePaperMetadata_loop rest paperId updateFn d))"

definition updatePaperMetadata ::
  "string \<Rightarrow> (local_paper_metadata \<Rightarrow> js_error + local_paper_metadata) \<Rightarrow> papers_fs \<Rightarrow> unit outcome" where
  "updatePaperMetadata paperId updateFn d = updatePaperMetadata_loop [Unread, Read] paperId updateFn d"

subsection \<open>Core functions\<close>

fun getLocalPaper_loop :: "paper_status list \<Rightarrow> string \<Rightarrow> papers_fs \<Rightarrow> js_error + local_paper option" where
  "getLocalPaper_loop [] paperId d = Inr None"
| "getLocalPaper_loop (status # rest) paperId d =
     (case readMetadataFile status d of
        Inl e \<Rightarrow> Inl e
      | Inr metadata \<Rightarrow>
          (case js_get metadata paperId of
             Some meta \<Rightarrow> Inr (Some (convertMetadataToLocalPaper paperId (fields_of meta) status))
           | None \<Rightarrow> getLocalPaper_loop rest paperId d))"

definition getLocalPaper :: "string \<Rightarrow> papers_fs \<Rightarrow> js_error + local_paper option" where
  "getLocalPaper paperId d = getLocalPaper_loop [Unread, Read] paperId d"

text \<open>
  The \<^verbatim>\<open>try\<close> block shared by \<^verbatim>\<open>markPaperAsRead\<close> and \<^verbatim>\<open>markPaperAsUnread\<close>: read the
  old file, write the new one, unlink the old one. The first failing call leaves the block.
\<close>

definition move_pdf :: "string \<Rightarrow> string \<Rightarrow> papers_fs \<Rightarrow> unit outcome" where
  "move_pdf oldPdfPath newPdfPath d =
     (case readFile oldPdfPath d of
        Inl e \<Rightarrow> (Inl e, d)
      | Inr fileData \<Rightarrow>
          (case writeFile newPdfPath fileData d of
             Inl e \<Rightarrow> (Inl e, d)
           | Inr d1 \<Rightarrow>
               (case unlink oldPdfPath d1 of
                  Inl e \<Rightarrow> (Inl e, d1)
                | Inr d2 \<Rightarrow> (Inr (), d2))))"

text \<open>
  The status transition, for a source and a destination status: \<^verbatim>\<open>markPaperAsRead\<close> and
  \<^verbatim>\<open>markPaperAsUnread\<close> are the same text with the two statuses exchanged. The guard
  \<^verbatim>\<open>if (!paperMeta) return\<close> tests the value of the property read.
\<close>

definition update_metadata_files ::
  "paper_status \<Rightarrow> paper_status \<Rightarrow> string \<Rightarrow> papers_metadata_file \<Rightarrow> js_value \<Rightarrow> papers_fs \<Rightarrow> unit outcome" where
  "update_metadata_files src dst paperId srcMetadata paperMeta d =
     (case writeMetadataFile src (js_delete srcMetadata paperId) d of
        Inl e \<Rightarrow> (Inl e, d)
      | Inr d1 \<Rightarrow>
          (case readMetadataFile dst d1 of
             Inl e \<Rightarrow> (Inl e, d1)
           | Inr dstMetadata \<Rightarrow>
               (case writeMetadataFile dst (js_assign dstMetadata paperId paperMeta) d1 of
                  Inl e \<Rightarrow> (Inl e, d1)
                | Inr d2 \<Rightarrow> (Inr (), d2))))"

definition transition :: "paper_status \<Rightarrow> paper_status \<Rightarrow> string \<Rightarrow> papers_fs \<Rightarrow> unit outcome" where
  "transition src dst paperId d =
     (case readMetadataFile src d of
        Inl e \<Rightarrow> (Inl e, d)
      | Inr srcMetadata \<Rightarrow>
          (case js_get srcMetadata paperId of
             None \<Rightarrow> (Inr (), d)
           | Some paperMeta \<Rightarrow>
               (let oldPdfPath = getPaperFilePath paperId src;
                    newPdfPath = getPaperFilePath paperId dst
                in case mkdir_recursive (path_dirname newPdfPath) d of
                     Inl e \<Rightarrow> (Inl e, d)
                   | Inr d1 \<Rightarrow>
                       (case move_pdf oldPdfPath newPdfPath d1 of
                          (Inl e, d2) \<Rightarrow>
                            if e \<noteq> ENOENT then (Inl e, d2)
                            else update_metadata_files src dst paperId srcMetadata paperMeta d2
                        | (Inr u, d2) \<Rightarrow>
                            update_metadata_files src dst paperId srcMetadata paperMeta d2))))"

definition markPaperAsRead :: "string \<Rightarrow> papers_fs \<Rightarrow> unit outcome" where
  "markPaperAsRead paperId d = transition Unread Read paperId d"

definition markPaperAsUnread :: "string \<Rightarrow> papers_fs \<Rightarrow> unit outcome" where
  "markPaperAsUnread paperId d = transition Read Unread paperId d"

fun deleteLocalPaper_loop :: "paper_status list \<Rightarrow> string \<Rightarrow> papers_fs \<Rightarrow> unit outcome" where
  "deleteLocalPaper_loop [] paperId d = (Inr (), d)"
| "deleteLocalPaper_loop (status # rest) paperId d =
     (case readMetadataFile status d of
        Inl e \<Rightarrow> (Inl e, d)
      | Inr metadata \<Rightarrow>
          (case js_get metadata paperId of
             Some meta \<Rightarrow>
               (let pdfPath = getPaperFilePath paperId status;
                    unlinked = (case unlink pdfPath d of
                                  Inl e \<Rightarrow> if e \<noteq> ENOENT then Inl e else Inr d
                                | Inr d1 \<Rightarrow> Inr d1)
                in case unlinked of
                     Inl e \<Rightarrow> (Inl e, d)
                   | Inr d1 \<Rightarrow>
                       (case writeMetadataFile status (js_delete metadata paperId) d1 of
                          Inl e \<Rightarrow> (Inl e, d1)
                        | Inr d2 \<Rightarrow> (Inr (), d2)))
           | None \<Rightarrow> deleteLocalPaper_loop rest paperId d))"

definition deleteLocalPaper :: "string \<Rightarrow> papers_fs \<Rightarrow> unit outcome" where
  "deleteLocalPaper paperId d = deleteLocalPaper_loop [Unread, Read] paperId d"

text \<open>\<^verbatim>\<open>meta => ({...meta, starred})\<close> and \<^verbatim>\<open>meta => ({...meta, archived})\<close>\<close>

definition setPaperStarred :: "string \<Rightarrow> bool \<Rightarrow> papers_fs \<Rightarrow> unit outcome" where
  "setPaperStarred paperId b d =
     updatePaperMetadata paperId (\<lambda>meta. Inr (meta\<lparr>starred := Some b\<rparr>)) d"

definition setPaperArchived :: "string \<Rightarrow> bool \<Rightarrow> papers_fs \<Rightarrow> unit outcome" where
  "setPaperArchived paperId b d =
     updatePaperMetadata paperId (\<lambda>meta. Inr (meta\<lparr>archived := Some b\<rparr>)) d"

text \<open>
  \<^verbatim>\<open>Array.from(new Set(xs))\<close>: a \<^verbatim>\<open>Set\<close> iterates in insertion order, so the first
  occurrence of every element stays. \<^verbatim>\<open>new Set(undefined)\<close> is the empty set.
\<close>

definition array_from_set :: "'a list \<Rightarrow> 'a list" where
  "array_from_set xs = rev (remdups (rev xs))"

definition addPaperTag :: "string \<Rightarrow> string \<Rightarrow> papers_fs \<Rightarrow> unit outcome" where
  "addPaperTag paperId tag d =
     updatePaperMetadata paperId
       (\<lambda>meta. Inr (meta\<lparr>tags :=
                  Some (array_from_set ((case tags meta of None \<Rightarrow> [] | Some ts \<Rightarrow> ts) @ [tag]))\<rparr>))
       d"

text \<open>\<^verbatim>\<open>meta.tags.filter(...)\<close> throws a \<^verbatim>\<open>TypeError\<close> when \<^verbatim>\<open>meta.tags\<close> is undefined.\<close>

definition removePaperTag :: "string \<Rightarrow> string \<Rightarrow> papers_fs \<Rightarrow> unit outcome" where
  "removePaperTag paperId tag d =
     updatePaperMetadata paperId
       (\<lambda>meta. case tags meta of
                 None \<Rightarrow> Inl TypeError
               | Some ts \<Rightarrow> Inr (meta\<lparr>tags := Some (filter (\<lambda>t. t \<noteq> tag) ts)\<rparr>))
       d"

text \<open>
  What the service takes the metadata of a collection to be: the object \<open>readMetadataFile\<close>
  returns, and the mapping from identifiers to records that its own properties are.
\<close>

definition metadata_of :: "paper_status \<Rightarrow> papers_fs \<Rightarrow> papers_metadata_file" where
  "metadata_of status d =
     (case readMetadataFile status d of Inl e \<Rightarrow> empty_object | Inr m \<Rightarrow> m)"

definition mapping_of :: "paper_status \<Rightarrow> papers_fs \<Rightarrow> string \<rightharpoonup> local_paper_metadata" where
  "mapping_of status d = own_entries (metadata_of status d)"

text \<open>A path the disk accepts a \<open>writeFile\<close> on.\<close>

definition writable :: "string \<Rightarrow> 'j fs \<Rightarrow> bool" where
  "writable p d \<longleftrightarrow>
     p \<notin> denied d \<and> p \<notin> read_only d \<and>
     (case nodes d p of Some (Directory l) \<Rightarrow> False | _ \<Rightarrow> True)"


section \<open>Part extraction (\<^verbatim>\<open>utils/extractPartsFromResult.ts\<close>)\<close>

text \<open>
  \<^verbatim>\<open>ExtractedPart = TextPart | ImagePart\<close>: the tag \<^verbatim>\<open>type\<close> is the constructor.
\<close>

datatype extracted_part = TextPart (content: string) | ImagePart (data: string)

text \<open>
  The regular expression \<^verbatim>\<open>/!\[.*?\]\((data:image\/[^)]+)\)/g\<close>, piece by piece. A string is
  a list of 8-bit characters here, so of the line terminators that \<^verbatim>\<open>.\<close> refuses only
  line feed and carriage return exist (U+2028 and U+2029 are not characters of the model).
\<close>

definition line_terminator :: "char \<Rightarrow> bool" where
  "line_terminator c \<longleftrightarrow> c = CHR 0x0A \<or> c = CHR 0x0D"

text \<open>A literal at the start of the input; the result is the input after it.\<close>

fun match_literal :: "string \<Rightarrow> string \<Rightarrow> string option" where
  "match_literal [] s = Some s"
| "match_literal (p # ps) [] = None"
| "match_literal (p # ps) (c # cs) = (if p = c then match_literal ps cs else None)"

text \<open>
  \<^verbatim>\<open>[^)]+\)\<close>: the greedy class takes every character up to the first \<^verbatim>\<open>)\<close>; giving
  characters back cannot help, since the character after a shorter run is not a \<^verbatim>\<open>)\<close>.
  The result is the run and the input after the closing parenthesis.
\<close>

definition match_uri_tail :: "string \<Rightarrow> (string \<times> string) option" where
  "match_uri_tail s =
     (let run = takeWhile (\<lambda>c. c \<noteq> CHR 0x29) s;
          after = dropWhile (\<lambda>c. c \<noteq> CHR 0x29) s
      in if run = [] \<or> after = [] then None else Some (run, tl after))"

text \<open>\<^verbatim>\<open>\]\((data:image\/[^)]+)\)\<close>: the result is group 1 and the input after the match.\<close>

definition match_close :: "string \<Rightarrow> (string \<times> string) option" where
  "match_close s =
     (case match_literal ''](data:image/'' s of
        None \<Rightarrow> None
      | Some r \<Rightarrow>
          (case match_uri_tail r of
             None \<Rightarrow> None
           | Some (run, rest) \<Rightarrow> Some (''data:image/'' @ run, rest)))"

text \<open>
  \<^verbatim>\<open>.*?\<close> followed by the rest of the pattern: the lazy star first tries to go on with
  nothing consumed, and consumes one more character (never a line terminator) when that fails.
\<close>

fun match_alt :: "string \<Rightarrow> (string \<times> string) option" where
  "match_alt [] = match_close []"
| "match_alt (c # cs) =
     (case match_close (c # cs) of
        Some r \<Rightarrow> Some r
      | None \<Rightarrow> if line_terminator c then None else match_alt cs)"

text \<open>The whole pattern at the start of the input.\<close>

definition match_here :: "string \<Rightarrow> (string \<times> string) option" where
  "match_here s = (case match_literal ''!['' s of None \<Rightarrow> None | Some r \<Rightarrow> match_alt r)"

text \<open>
  \<^verbatim>\<open>regex.exec(result)\<close> on the input from \<^verbatim>\<open>regex.lastIndex\<close> on: the leftmost start at
  which the pattern matches. The result is the text skipped before the match
  (\<^verbatim>\<open>result.slice(lastIndex, match.index)\<close>), group 1, and the input after the match
  (\<^verbatim>\<open>result.slice(regex.lastIndex)\<close> for the new \<^verbatim>\<open>lastIndex\<close>).
\<close>

fun regex_exec :: "string \<Rightarrow> (string \<times> string \<times> string) option" where
  "regex_exec [] = None"
| "regex_exec (c # cs) =
     (case match_here (c # cs) of
        Some (g, rest) \<Rightarrow> Some ([], g, rest)
      | None \<Rightarrow>
          (case regex_exec cs of
             None \<Rightarrow> None
           | Some (skipped, g, rest) \<Rightarrow> Some (c # skipped, g, rest)))"

text \<open>
  The \<^verbatim>\<open>while\<close> loop and the final \<^verbatim>\<open>if\<close>, on the input that is still to be scanned
  (\<^verbatim>\<open>result.slice(lastIndex)\<close>); the result is what is pushed on \<^verbatim>\<open>parts\<close> from there on.
  \<^verbatim>\<open>match.index > lastIndex\<close> is "some text was skipped", \<^verbatim>\<open>if (match[1])\<close> is "group 1 is
  not the empty string", \<^verbatim>\<open>lastIndex < result.length\<close> is "some input is left".
\<close>

function extract_loop :: "string \<Rightarrow> extracted_part list" where
  "extract_loop s =
     (case regex_exec s of
        Some (skipped, g, rest) \<Rightarrow>
          (if skipped \<noteq> [] then [TextPart skipped] else []) @
          (if g \<noteq> [] then [ImagePart g] else []) @
          extract_loop rest
      | None \<Rightarrow> (if s \<noteq> [] then [TextPart s] else []))"
  by pat_completeness auto
termination
proof (relation "measure length")
  show "wf (measure length)" by simp
next
  fix s :: string and x2 skipped y g rest
  assume ex: "regex_exec s = Some x2" and x2: "(skipped, y) = x2" and y: "(g, rest) = y"
  have lit: "match_literal p t = Some r \<Longrightarrow> length r \<le> length t" for p t r
    by (induction p t rule: match_literal.induct) (auto split: if_splits)
  have uri: "match_uri_tail t = Some (run, r) \<Longrightarrow> length r < length t" for t run r
  proof -
    assume a: "match_uri_tail t = Some (run, r)"
    then have ne: "dropWhile (\<lambda>c. c \<noteq> CHR 0x29) t \<noteq> []"
      and r: "r = tl (dropWhile (\<lambda>c. c \<noteq> CHR 0x29) t)"
      by (auto simp add: match_uri_tail_def Let_def split: if_splits)
    have "length (dropWhile (\<lambda>c. c \<noteq> CHR 0x29) t) \<le> length t" by (rule length_dropWhile_le)
    with ne r show ?thesis by (cases "dropWhile (\<lambda>c. c \<noteq> CHR 0x29) t") auto
  qed
  have close: "match_close t = Some (g', r) \<Longrightarrow> length r < length t" for t g' r
    using lit uri
    by (fastforce simp add: match_close_def split: option.splits prod.splits)
  have alt: "match_alt t = Some (g', r) \<Longrightarrow> length r < length t" for t g' r
  proof (induction t)
    case Nil
    then show ?case using close [of "[]" g' r] by simp
  next
    case (Cons c cs)
    show ?case
    proof (cases "match_close (c # cs)")
      case None
      with Cons show ?thesis by (auto split: if_splits)
    next
      case (Some a)
      with Cons.prems have "match_close (c # cs) = Some (g', r)" by simp
      then show ?thesis by (rule close)
    qed
  qed
  have here: "match_here t = Some (g', r) \<Longrightarrow> length r < length t" for t g' r
    using lit alt by (fastforce simp add: match_here_def split: option.splits)
  have exec: "regex_exec t = Some (sk, g', r) \<Longrightarrow> length r < length t" for t sk g' r
  proof (induction t arbitrary: sk)
    case Nil
    then show ?case by simp
  next
    case (Cons c cs)
    show ?case
    proof (cases "match_here (c # cs)")
      case None
      with Cons.prems obtain sk' where "regex_exec cs = Some (sk', g', r)"
        by (auto split: option.splits)
      from Cons.IH [OF this] show ?thesis by simp
    next
      case (Some a)
      with Cons.prems have "match_here (c # cs) = Some (g', r)"
        by (cases a) auto
      then show ?thesis by (rule here)
    qed
  qed
  from ex x2 y have "regex_exec s = Some (skipped, g, rest)" by simp
  from exec [OF this] show "(rest, s) \<in> measure length" by simp
qed

declare extract_loop.simps [simp del]

definition extractPartsFromResult :: "string \<Rightarrow> extracted_part list" where
  "extractPartsFromResult result = extract_loop result"

text \<open>
  The spec's words for what the scan looks for: an inline image reference whose target is a
  \<^verbatim>\<open>data:image/...\<close> URI, somewhere in the text: \<^verbatim>\<open>![\<close>, an alternative text on one line,
  \<^verbatim>\<open>](data:image/\<close>, a non-empty payload with no closing parenthesis in it, \<^verbatim>\<open>)\<close>.
\<close>

definition image_reference :: "string \<Rightarrow> string \<Rightarrow> string" where
  "image_reference alt payload = ''!['' @ alt @ ''](data:image/'' @ payload @ '')''"

definition has_image_reference :: "string \<Rightarrow> bool" where
  "has_image_reference s \<longleftrightarrow>
     (\<exists>before alt payload after.
        s = before @ image_reference alt payload @ after \<and>
        (\<forall>c\<in>set alt. \<not> line_terminator c) \<and>
        payload \<noteq> [] \<and> CHR 0x29 \<notin> set payload)"

section \<open>Conversion cache and pipeline (\<^verbatim>\<open>services/docling.ts\<close>)\<close>

subsection \<open>Types and constants\<close>

record cache_entry =
  pdfPath :: string
  outputPath :: string
  timestamp :: int

text \<open>The cache index file holds the \<^verbatim>\<open>JSON.stringify\<close> image of a \<^verbatim>\<open>CacheEntry[]\<close>.\<close>

type_synonym docling_fs = "cache_entry list fs"

definition CACHE_DIR :: string where
  "CACHE_DIR = path_join process_cwd ''.docling_cache''"

definition CACHE_METADATA_FILE :: string where
  "CACHE_METADATA_FILE = path_join CACHE_DIR ''cache_metadata.json''"

definition MAX_CACHE_SIZE :: nat where
  "MAX_CACHE_SIZE = 5"

text \<open>
  What a call of \<^verbatim>\<open>pdfToMarkdown\<close> takes from outside the program: Node's
  \<^verbatim>\<open>path.normalize\<close>, the clock (\<^verbatim>\<open>Date.now()\<close> where the time stamp of an entry is set), the
  string \<^verbatim>\<open>Date.now().toString() + Math.random().toString(36).substring(2, 7)\<close>, and the run of
  the external \<^verbatim>\<open>docling\<close> command: whether it exits with code 0, and the node it leaves at
  the output path (nothing, a Markdown file, or a directory with files).
\<close>

record conversion_env =
  path_normalize :: "string \<Rightarrow> string"
  date_now :: int
  uniqueId :: string
  exec_ok :: bool
  exec_output :: "cache_entry list node option"

subsection \<open>Functions\<close>

text \<open>\<^verbatim>\<open>saveCache\<close>: a failing write is logged and otherwise ignored.\<close>

definition saveCache :: "cache_entry list \<Rightarrow> docling_fs \<Rightarrow> docling_fs" where
  "saveCache cache d =
     (case writeFile CACHE_METADATA_FILE (JSON_stringify cache) d of
        Inl error \<Rightarrow> d
      | Inr d' \<Rightarrow> d')"

text \<open>
  \<^verbatim>\<open>initializeCache\<close>: the \<^verbatim>\<open>mkdirSync\<close> is outside the \<^verbatim>\<open>try\<close>, so its error leaves the
  function; everything after it is inside, and the handler gives the empty cache.
\<close>

definition initializeCache :: "docling_fs \<Rightarrow> js_error + (cache_entry list \<times> docling_fs)" where
  "initializeCache d =
     (case (if \<not> existsSync CACHE_DIR d then mkdir_recursive CACHE_DIR d else Inr d) of
        Inl e \<Rightarrow> Inl e
      | Inr d0 \<Rightarrow>
          Inr (if existsSync CACHE_METADATA_FILE d0 then
                 (case readFile CACHE_METADATA_FILE d0 of
                    Inl error \<Rightarrow> ([], d0)
                  | Inr cacheData \<Rightarrow>
                      (case JSON_parse cacheData of
                         Inl error \<Rightarrow> ([], d0)
                       | Inr parsed \<Rightarrow>
                           (let cache = filter (\<lambda>entry. existsSync (outputPath entry) d0) parsed
                            in (cache, saveCache cache d0))))
               else ([], d0)))"

text \<open>\<^verbatim>\<open>Array.prototype.findIndex\<close>; \<open>None\<close> is the result \<^verbatim>\<open>-1\<close>.\<close>

fun findIndex :: "('a \<Rightarrow> bool) \<Rightarrow> 'a list \<Rightarrow> nat option" where
  "findIndex P [] = None"
| "findIndex P (x # xs) =
     (if P x then Some 0 else (case findIndex P xs of None \<Rightarrow> None | Some k \<Rightarrow> Some (Suc k)))"

text \<open>\<^verbatim>\<open>xs.splice(k, 1)\<close>: the array without its element at index \<open>k\<close>.\<close>

definition splice1 :: "nat \<Rightarrow> 'a list \<Rightarrow> 'a list" where
  "splice1 k xs = take k xs @ drop (Suc k) xs"

definition endsWith :: "string \<Rightarrow> string \<Rightarrow> bool" where
  "endsWith s suffix \<longleftrightarrow>
     length suffix \<le> length s \<and> drop (length s - length suffix) s = suffix"

text \<open>
  Reading the Markdown at an output path; the same lines stand in the cache-hit branch and in
  the conversion: \<^verbatim>\<open>statSync\<close>, for a directory the first listed file whose name ends in
  \<^verbatim>\<open>.md\<close> (an \<^verbatim>\<open>Error\<close> when there is none), then \<^verbatim>\<open>readFileSync\<close>. The result is the
  content of the file.
\<close>

definition read_markdown :: "string \<Rightarrow> docling_fs \<Rightarrow> js_error + cache_entry list file_data" where
  "read_markdown markdownPath d =
     (case nodes d markdownPath of
        None \<Rightarrow> Inl ENOENT
      | Some (Directory files) \<Rightarrow>
          (case find (\<lambda>f. endsWith (fst f) ''.md'') files of
             None \<Rightarrow> Inl (Error (''No markdown file found in directory '' @ markdownPath))
           | Some mdFile \<Rightarrow> Inr (Raw (snd mdFile)))
      | Some (File c) \<Rightarrow> readFile markdownPath d)"

text \<open>
  The outcome of the first part of \<^verbatim>\<open>pdfToMarkdown\<close> (up to the end of the
  \<^verbatim>\<open>if (cacheIndex !== -1)\<close> block): a hit returns (what reading the cached output gives), a
  miss goes on to the conversion with the cache it has in memory.
\<close>

datatype lookup_result =
    Hit "js_error + cache_entry list file_data"
  | Miss "cache_entry list"

definition cache_lookup ::
  "conversion_env \<Rightarrow> string \<Rightarrow> docling_fs \<Rightarrow> (js_error + lookup_result) \<times> docling_fs" where
  "cache_lookup env path d =
     (case initializeCache d of
        Inl e \<Rightarrow> (Inl e, d)
      | Inr (pdfCache, d1) \<Rightarrow>
          (let normalizedPath = path_normalize env path
           in case findIndex (\<lambda>entry. path_normalize env (pdfPath entry) = normalizedPath) pdfCache of
                None \<Rightarrow> (Inr (Miss pdfCache), d1)
              | Some cacheIndex \<Rightarrow>
                  (let cachedEntry = pdfCache ! cacheIndex
                   in if existsSync (outputPath cachedEntry) d1 then
                        (let moved = cachedEntry\<lparr>timestamp := date_now env\<rparr> # splice1 cacheIndex pdfCache;
                             d2 = saveCache moved d1
                         in (Inr (Hit (read_markdown (outputPath cachedEntry) d2)), d2))
                      else
                        (let spliced = splice1 cacheIndex pdfCache
                         in (Inr (Miss spliced), saveCache spliced d1)))))"

text \<open>\<^verbatim>\<open>path.basename(normalizedPath).replace(/[^a-zA-Z0-9.-]/g, '_')\<close>\<close>

definition safe_char :: "char \<Rightarrow> bool" where
  "safe_char c \<longleftrightarrow>
     (let n = (of_char c :: nat)
      in (97 \<le> n \<and> n \<le> 122) \<or> (65 \<le> n \<and> n \<le> 90) \<or> (48 \<le> n \<and> n \<le> 57) \<or>
         c = CHR ''.'' \<or> c = CHR ''-'')"

definition safeName :: "string \<Rightarrow> string" where
  "safeName normalizedPath =
     map (\<lambda>c. if safe_char c then c else CHR ''_'') (path_basename normalizedPath)"

definition tempFilePath :: "conversion_env \<Rightarrow> string \<Rightarrow> string" where
  "tempFilePath env normalizedPath =
     path_join CACHE_DIR ((''docling-'' @ safeName normalizedPath @ ''-'' @ uniqueId env) @ ''.md'')"

text \<open>
  The run of the external command \<^verbatim>\<open>docling "<path>" --to md --output "<out>"\<close>: it
  leaves its output node at the output path, whether or not it exits with code 0.
\<close>

definition run_docling :: "conversion_env \<Rightarrow> string \<Rightarrow> docling_fs \<Rightarrow> docling_fs" where
  "run_docling env out d =
     (case exec_output env of
        None \<Rightarrow> d
      | Some n \<Rightarrow> d\<lparr>nodes := (nodes d)(out \<mapsto> n)\<rparr>)"

text \<open>
  Modelled from the spec: \<^verbatim>\<open>tryCatch\<close> of \<^verbatim>\<open>types/try-catch.ts\<close>, which is not among the
  sources; it awaits the promise it is given and returns the value as \<^verbatim>\<open>data\<close> or the
  rejection as \<^verbatim>\<open>error\<close>, here \<open>Inr\<close> and \<open>Inl\<close>. The promise runs the command
  (a non-zero exit code rejects) and reads the Markdown it wrote.
\<close>

definition convert ::
  "conversion_env \<Rightarrow> string \<Rightarrow> docling_fs \<Rightarrow> (js_error + cache_entry list file_data) \<times> docling_fs" where
  "convert env out d =
     (let d1 = run_docling env out d
      in if \<not> exec_ok env then (Inl ExecError, d1) else (read_markdown out d1, d1))"

text \<open>
  Taking a converted output into the cache: \<^verbatim>\<open>unshift\<close>, the eviction when the cache is over
  its size (the removal of the evicted output sits in a \<^verbatim>\<open>try\<close> with an empty handler), and
  \<^verbatim>\<open>saveCache\<close>.
\<close>

definition cache_insert ::
  "cache_entry \<Rightarrow> cache_entry list \<Rightarrow> docling_fs \<Rightarrow> cache_entry list \<times> docling_fs" where
  "cache_insert entry pdfCache d =
     (let unshifted = entry # pdfCache
      in if length unshifted > MAX_CACHE_SIZE then
           (let evictedEntry = last unshifted;
                popped = butlast unshifted;
                d1 = (if existsSync (outputPath evictedEntry) d then
                        (case rmSync_recursive_force (outputPath evictedEntry) d of
                           Inl cleanupError \<Rightarrow> d
                         | Inr d' \<Rightarrow> d')
                      else d)
            in (popped, saveCache popped d1))
         else (unshifted, saveCache unshifted d))"

definition pdfToMarkdown ::
  "conversion_env \<Rightarrow> string \<Rightarrow> docling_fs \<Rightarrow> (js_error + cache_entry list file_data) \<times> docling_fs" where
  "pdfToMarkdown env path d =
     (case cache_lookup env path d of
        (Inl e, d1) \<Rightarrow> (Inl e, d1)
      | (Inr (Hit markdown), d1) \<Rightarrow> (markdown, d1)
      | (Inr (Miss pdfCache), d1) \<Rightarrow>
          (let normalizedPath = path_normalize env path;
               out = tempFilePath env normalizedPath
           in case convert env out d1 of
                (Inl error, d2) \<Rightarrow>
                  (Inl error,
                   if existsSync out d2 then
                     (case rmSync_recursive_force out d2 of
                        Inl cleanupError \<Rightarrow> d2
                      | Inr d3 \<Rightarrow> d3)
                   else d2)
              | (Inr markdown, d2) \<Rightarrow>
                  (let entry = \<lparr>pdfPath = normalizedPath, outputPath = out,
                                 timestamp = date_now env\<rparr>
                   in (Inr markdown, snd (cache_insert entry pdfCache d2)))))"

text \<open>A sequence of requests, one after the other.\<close>

fun run_conversions :: "(conversion_env \<times> string) list \<Rightarrow> docling_fs \<Rightarrow> docling_fs" where
  "run_conversions [] d = d"
| "run_conversions (r # rs) d = run_conversions rs (snd (pdfToMarkdown (fst r) (snd r) d))"

text \<open>The cache as the index file has it, read the way \<open>initializeCache\<close> reads it.\<close>

definition persisted_cache :: "docling_fs \<Rightarrow> cache_entry list" where
  "persisted_cache d =
     (case readFile CACHE_METADATA_FILE d of
        Inl error \<Rightarrow> []
      | Inr cacheData \<Rightarrow> (case JSON_parse cacheData of Inl error \<Rightarrow> [] | Inr parsed \<Rightarrow> parsed))"

section \<open>Example data\<close>

text \<open>Concrete disks on which the theorems below are instantiated.\<close>

definition example_meta :: local_paper_metadata where
  "example_meta =
     \<lparr> title = Some ''Attention Is All You Need'',
       abstract = Some ''The dominant sequence transduction models'',
       authors = Some [''Ashish Vaswani'', ''Noam Shazeer''],
       categories = Some [''cs.CL'', ''cs.LG''],
       primaryCategory = Some ''cs.CL'',
       pdfUrl = Some ''http://arxiv.org/pdf/1706.03762v7'',
       doi = None,
       journalRef = None,
       comment = Some ''15 pages'',
       downloadedAt = Some 1700000000000,
       fileSize = Some 2215244,
       starred = Some False,
       archived = Some False,
       tags = Some [''nlp''],
       published = Some ''2017-06-12T17:57:34.000Z'',
       updated = Some ''2023-08-02T00:41:18.000Z'' \<rparr>"

text \<open>The metadata object \<^verbatim>\<open>{"1706.03762": {...}}\<close>.\<close>

definition example_metadata :: papers_metadata_file where
  "example_metadata = js_assign empty_object ''1706.03762'' (Object example_meta)"

text \<open>One paper in the unread collection, with its PDF.\<close>

definition example_disk :: papers_fs where
  "example_disk =
     \<lparr> nodes = [metadataPath Unread \<mapsto> File (Json example_metadata),
                getPaperFilePath ''1706.03762'' Unread \<mapsto> File (Raw ''%PDF-1.5'')],
       denied = {}, read_only = {} \<rparr>"


text \<open>
  The paper listed in both collections, no PDF in the unread directory, and the PDF in the read
  directory held open by another program.
\<close>

definition locked_disk :: papers_fs where
  "locked_disk =
     \<lparr> nodes = [metadataPath Unread \<mapsto> File (Json example_metadata),
                metadataPath Read \<mapsto> File (Json example_metadata),
                getPaperFilePath ''1706.03762'' Read \<mapsto> File (Raw ''%PDF-1.5'')],
       denied = {getPaperFilePath ''1706.03762'' Read}, read_only = {} \<rparr>"



text \<open>
  The example disk with a second entry in the unread collection, stored under the identifier
  \<^verbatim>\<open>constructor\<close> and holding the one field \<^verbatim>\<open>starred\<close>.
\<close>

definition constructor_disk :: papers_fs where
  "constructor_disk =
     example_disk\<lparr>nodes := (nodes example_disk)
       (metadataPath Unread \<mapsto>
          File (Json (js_assign example_metadata ''constructor''
                        (Object (no_fields\<lparr>starred := Some True\<rparr>)))))\<rparr>"

text \<open>
  A disk whose read collection lists the identifier \<^verbatim>\<open>constructor\<close> and whose unread
  collection has no metadata file.
\<close>

definition constructor_read_disk :: papers_fs where
  "constructor_read_disk =
     \<lparr> nodes = [metadataPath Read \<mapsto>
                  File (Json (js_assign empty_object ''constructor''
                                (Object (no_fields\<lparr>starred := Some True\<rparr>))))],
       denied = {}, read_only = {} \<rparr>"

text \<open>Cache entries and disks of the conversion cache.\<close>

definition cached :: "string \<Rightarrow> int \<Rightarrow> cache_entry" where
  "cached name t =
     \<lparr> pdfPath = ''/papers/'' @ name @ ''.pdf'',
       outputPath = path_join CACHE_DIR (''docling-'' @ name @ ''.pdf-'' @ ''0q1w2.md''),
       timestamp = t \<rparr>"

text \<open>A full cache, most recently used first.\<close>

definition example_cache :: "cache_entry list" where
  "example_cache = [cached ''e'' 5, cached ''d'' 4, cached ''c'' 3, cached ''b'' 2, cached ''a'' 1]"

definition full_cache_disk :: docling_fs where
  "full_cache_disk =
     \<lparr> nodes = [CACHE_DIR \<mapsto> Directory [],
                CACHE_METADATA_FILE \<mapsto> File (Json example_cache),
                outputPath (cached ''e'' 5) \<mapsto> File (Raw ''# e''),
                outputPath (cached ''d'' 4) \<mapsto> File (Raw ''# d''),
                outputPath (cached ''c'' 3) \<mapsto> File (Raw ''# c''),
                outputPath (cached ''b'' 2) \<mapsto> File (Raw ''# b''),
                outputPath (cached ''a'' 1) \<mapsto> File (Raw ''# a'')],
       denied = {}, read_only = {} \<rparr>"

text \<open>The same disk with the output of the least recently used entry held open elsewhere.\<close>

definition locked_cache_disk :: docling_fs where
  "locked_cache_disk = full_cache_disk\<lparr>denied := {outputPath (cached ''a'' 1)}\<rparr>"

text \<open>Two entries in the index; the output of the first has been deleted out of band.\<close>

definition stale_cache_disk :: docling_fs where
  "stale_cache_disk =
     \<lparr> nodes = [CACHE_DIR \<mapsto> Directory [],
                CACHE_METADATA_FILE \<mapsto> File (Json [cached ''b'' 2, cached ''a'' 1]),
                outputPath (cached ''a'' 1) \<mapsto> File (Raw ''# a'')],
       denied = {}, read_only = {} \<rparr>"

text \<open>The same disk with the index file read-only.\<close>

definition read_only_cache_disk :: docling_fs where
  "read_only_cache_disk = stale_cache_disk\<lparr>read_only := {CACHE_METADATA_FILE}\<rparr>"

text \<open>A conversion that succeeds and writes one Markdown file, and one whose command fails.\<close>

definition example_env :: conversion_env where
  "example_env =
     \<lparr> path_normalize = (\<lambda>p. p), date_now = 6, uniqueId = ''17000000000006k3x9'',
       exec_ok = True, exec_output = Some (File (Raw ''# f'')) \<rparr>"

definition failing_env :: conversion_env where
  "failing_env =
     \<lparr> path_normalize = (\<lambda>p. p), date_now = 7, uniqueId = ''17000000000007m2p4'',
       exec_ok = False, exec_output = None \<rparr>"

section \<open>Theorems on the local papers\<close>

subsection \<open>Unfolding on concrete disks\<close>

lemmas path_defs = metadataPath_def getPaperFilePath_def status_directory_def
  read_paper_directory_def unread_paper_directory_def application_base_directory_def
  os_homedir_def process_platform_def path_join_def METADATA_FILENAME_def path_dirname_def

lemmas fs_defs = readFile_def writeFile_def unlink_def mkdir_recursive_def
  JSON_parse_def JSON_stringify_def existsSync_def writable_def

lemmas js_defs = js_get_def fields_of_def js_assign.rep_eq js_delete.rep_eq empty_object.rep_eq
  Object_prototype_methods_def inherited_name_def no_fields_def

lemmas papers_defs = readMetadataFile_def writeMetadataFile_def mapping_of_def metadata_of_def
  transition_def move_pdf_def update_metadata_files_def markPaperAsRead_def
  markPaperAsUnread_def deleteLocalPaper_def updatePaperMetadata_def getLocalPaper_def
  setPaperStarred_def setPaperArchived_def addPaperTag_def removePaperTag_def

subsection \<open>Paths of the two collections never coincide\<close>

lemma pdf_suffix_ne: "i @ ''.pdf'' \<noteq> METADATA_FILENAME"
proof
  assume "i @ ''.pdf'' = METADATA_FILENAME"
  then have "last (i @ ''.pdf'') = last METADATA_FILENAME" by simp
  then show False by (simp add: METADATA_FILENAME_def)
qed

lemma metadataPath_inj [simp]: "metadataPath s = metadataPath s' \<longleftrightarrow> s = s'"
  by (cases s; cases s')
     (auto simp add: metadataPath_def status_directory_def read_paper_directory_def
        unread_paper_directory_def path_join_def)

lemma pdf_ne_meta [simp]:
  "getPaperFilePath i s \<noteq> metadataPath s'" "metadataPath s' \<noteq> getPaperFilePath i s"
  using pdf_suffix_ne [of i]
  by (cases s; cases s';
      auto simp add: getPaperFilePath_def metadataPath_def status_directory_def
        read_paper_directory_def unread_paper_directory_def path_join_def)+

lemma pdf_inj [simp]: "getPaperFilePath i s = getPaperFilePath i' s' \<longleftrightarrow> i = i' \<and> s = s'"
  by (cases s; cases s')
     (auto simp add: getPaperFilePath_def status_directory_def read_paper_directory_def
        unread_paper_directory_def path_join_def)

subsection \<open>Property reads on a metadata object\<close>

lemma own_entries_proto [simp]: "own_entries m ''__proto__'' = None"
  using own_entries [of m] by simp

lemma js_get_own: "own_entries m i = Some pm \<Longrightarrow> js_get m i = Some (Object pm)"
  by (simp add: js_get_def)


lemma js_get_plain: "\<not> inherited_name i \<Longrightarrow> js_get m i = map_option Object (own_entries m i)"
  by (simp add: js_get_def inherited_name_def split: option.splits)

lemma own_entries_delete [simp]: "own_entries (js_delete m i) = (own_entries m)(i := None)"
  by (rule js_delete.rep_eq)

lemma own_entries_assign_Object:
  "i \<noteq> ''__proto__'' \<Longrightarrow> own_entries (js_assign m i (Object pm)) = (own_entries m)(i \<mapsto> pm)"
  by (simp add: js_assign.rep_eq)

lemma own_entries_assign_other:
  "j \<noteq> i \<Longrightarrow> own_entries (js_assign m i v) j = own_entries m j"
  by (simp add: js_assign.rep_eq split: js_value.splits)

lemma own_entries_present_ne_proto: "own_entries m i = Some pm \<Longrightarrow> i \<noteq> ''__proto__''"
  by auto

subsection \<open>What each file operation does to the metadata mappings\<close>

lemma readMetadataFile_Inr: "readMetadataFile status d = Inr (metadata_of status d)"
  by (simp add: metadata_of_def readMetadataFile_def split: sum.splits)

lemma metadata_of_cong:
  "nodes d' (metadataPath s) = nodes d (metadataPath s) \<Longrightarrow> denied d' = denied d \<Longrightarrow>
   metadata_of s d' = metadata_of s d"
  by (simp add: metadata_of_def readMetadataFile_def readFile_def split: option.splits)

lemma writeFile_Inr:
  "writeFile p c d = Inr d' \<Longrightarrow>
   d' = d\<lparr>nodes := (nodes d)(p \<mapsto> File c)\<rparr> \<and> p \<notin> denied d \<and> p \<notin> read_only d"
  unfolding writeFile_def
  by (cases "p \<in> denied d"; cases "p \<in> read_only d"; cases "nodes d p"; simp split: node.splits)

lemma unlink_Inr:
  "unlink p d = Inr d' \<Longrightarrow> d' = d\<lparr>nodes := (nodes d)(p := None)\<rparr>"
  unfolding unlink_def
  by (cases "p \<in> denied d"; cases "nodes d p"; simp split: node.splits)

lemma mkdir_recursive_Inr:
  "mkdir_recursive p d = Inr d' \<Longrightarrow>
   d' = d \<or> (nodes d p = None \<and> d' = d\<lparr>nodes := (nodes d)(p \<mapsto> Directory [])\<rparr>)"
  unfolding mkdir_recursive_def
  by (cases "p \<in> denied d"; cases "nodes d p"; simp split: node.splits)

lemma writeMetadataFile_Inr:
  "writeMetadataFile s m d = Inr d' \<Longrightarrow>
   d' = d\<lparr>nodes := (nodes d)(metadataPath s \<mapsto> File (Json m))\<rparr> \<and>
   metadataPath s \<notin> denied d \<and> metadataPath s \<notin> read_only d"
  unfolding writeMetadataFile_def JSON_stringify_def by (rule writeFile_Inr)

lemma metadata_of_write_same: "writeMetadataFile s m d = Inr d' \<Longrightarrow> metadata_of s d' = m"
  by (drule writeMetadataFile_Inr)
     (simp add: metadata_of_def readMetadataFile_def readFile_def JSON_parse_def)

lemma metadata_of_write_other:
  "writeMetadataFile s m d = Inr d' \<Longrightarrow> s' \<noteq> s \<Longrightarrow> metadata_of s' d' = metadata_of s' d"
  by (drule writeMetadataFile_Inr, rule metadata_of_cong) simp_all

lemma metadata_of_mkdir:
  assumes "mkdir_recursive p d = Inr d'"
  shows "metadata_of s d' = metadata_of s d"
proof -
  from mkdir_recursive_Inr [OF assms] show ?thesis
  proof
    assume "d' = d" then show ?thesis by simp
  next
    assume a: "nodes d p = None \<and> d' = d\<lparr>nodes := (nodes d)(p \<mapsto> Directory [])\<rparr>"
    show ?thesis
    proof (cases "p = metadataPath s")
      case True
      with a show ?thesis
        by (simp add: metadata_of_def readMetadataFile_def readFile_def)
    next
      case False
      with a show ?thesis by (intro metadata_of_cong) simp_all
    qed
  qed
qed

lemma metadata_of_unlink_pdf:
  "unlink (getPaperFilePath i s1) d = Inr d' \<Longrightarrow> metadata_of s d' = metadata_of s d"
  by (drule unlink_Inr, rule metadata_of_cong) simp_all

lemma metadata_of_write_pdf:
  "writeFile (getPaperFilePath i s1) c d = Inr d' \<Longrightarrow> metadata_of s d' = metadata_of s d"
  by (drule writeFile_Inr, rule metadata_of_cong) simp_all

lemma metadata_of_move_pdf:
  assumes "move_pdf (getPaperFilePath i s1) (getPaperFilePath i' s2) d = (r, d')"
  shows "metadata_of s d' = metadata_of s d"
proof (cases "readFile (getPaperFilePath i s1) d")
  case (Inl e)
  with assms show ?thesis by (simp add: move_pdf_def)
next
  case (Inr c)
  note rd = this
  show ?thesis
  proof (cases "writeFile (getPaperFilePath i' s2) c d")
    case (Inl e)
    with assms rd show ?thesis by (simp add: move_pdf_def)
  next
    case (Inr d1)
    note wr = this
    have m1: "metadata_of s d1 = metadata_of s d" by (rule metadata_of_write_pdf [OF wr])
    show ?thesis
    proof (cases "unlink (getPaperFilePath i s1) d1")
      case (Inl e)
      with assms rd wr m1 show ?thesis by (simp add: move_pdf_def)
    next
      case (Inr d2)
      with assms rd wr have "d' = d2" by (simp add: move_pdf_def)
      with metadata_of_unlink_pdf [OF Inr] m1 show ?thesis by simp
    qed
  qed
qed

subsection \<open>The status transition\<close>

lemma update_metadata_files_Inr:
  assumes "src \<noteq> dst" and "update_metadata_files src dst i m v d = (Inr u, d')"
  shows "metadata_of src d' = js_delete m i"
    and "metadata_of dst d' = js_assign (metadata_of dst d) i v"
proof -
  from assms(2) obtain d1 where
    w1: "writeMetadataFile src (js_delete m i) d = Inr d1" and
    w2: "writeMetadataFile dst (js_assign (metadata_of dst d1) i v) d1 = Inr d'"
    by (cases "writeMetadataFile src (js_delete m i) d")
       (auto simp add: update_metadata_files_def readMetadataFile_Inr split: sum.splits)
  from w2 assms(1) have "metadata_of src d' = metadata_of src d1"
    by (simp add: metadata_of_write_other)
  with w1 show "metadata_of src d' = js_delete m i" by (simp add: metadata_of_write_same)
  from w1 assms(1) have "metadata_of dst d1 = metadata_of dst d"
    by (simp add: metadata_of_write_other)
  with w2 show "metadata_of dst d' = js_assign (metadata_of dst d) i v"
    by (simp add: metadata_of_write_same)
qed

lemma transition_truthy:
  assumes "src \<noteq> dst" and "js_get (metadata_of src d) i = Some v"
    and "transition src dst i d = (Inr u, d')"
  shows "metadata_of src d' = js_delete (metadata_of src d) i"
    and "metadata_of dst d' = js_assign (metadata_of dst d) i v"
proof -
  let ?old = "getPaperFilePath i src" and ?new = "getPaperFilePath i dst"
  let ?up = "update_metadata_files src dst i (metadata_of src d) v"
  from assms(2,3) have t:
    "(case mkdir_recursive (path_dirname ?new) d of
        Inl e \<Rightarrow> (Inl e, d)
      | Inr d1 \<Rightarrow>
          (case move_pdf ?old ?new d1 of
             (Inl e, d2) \<Rightarrow> if e \<noteq> ENOENT then (Inl e, d2) else ?up d2
           | (Inr u, d2) \<Rightarrow> ?up d2)) = (Inr u, d')"
    by (simp add: transition_def readMetadataFile_Inr Let_def)
  then obtain d1 where mk: "mkdir_recursive (path_dirname ?new) d = Inr d1"
    by (cases "mkdir_recursive (path_dirname ?new) d") auto
  obtain r d2 where mv: "move_pdf ?old ?new d1 = (r, d2)"
    by (cases "move_pdf ?old ?new d1") auto
  from t mk mv have up: "?up d2 = (Inr u, d')"
    by (cases r) (auto split: if_splits)
  have same: "metadata_of s d2 = metadata_of s d" for s
    using metadata_of_mkdir [OF mk] metadata_of_move_pdf [OF mv] by simp
  from update_metadata_files_Inr [OF assms(1) up] same
  show "metadata_of src d' = js_delete (metadata_of src d) i"
    and "metadata_of dst d' = js_assign (metadata_of dst d) i v"
    by simp_all
qed

lemma transition_undefined:
  "js_get (metadata_of src d) i = None \<Longrightarrow> transition src dst i d = (Inr (), d)"
  by (simp add: transition_def readMetadataFile_Inr)

lemma transition_truthy_completed:
  assumes "src \<noteq> dst" and "js_get (metadata_of src d) i = Some v"
    and "fst (transition src dst i d) = Inr ()"
  shows "metadata_of src (snd (transition src dst i d)) = js_delete (metadata_of src d) i"
    and "metadata_of dst (snd (transition src dst i d)) = js_assign (metadata_of dst d) i v"
proof -
  from assms(3) have "transition src dst i d = (Inr (), snd (transition src dst i d))"
    by (cases "transition src dst i d") simp
  from transition_truthy [OF assms(1,2) this]
  show "metadata_of src (snd (transition src dst i d)) = js_delete (metadata_of src d) i"
    and "metadata_of dst (snd (transition src dst i d)) = js_assign (metadata_of dst d) i v"
    by simp_all
qed

lemma transition_completed:
  assumes "src \<noteq> dst" and "mapping_of src d i = Some pm"
    and "fst (transition src dst i d) = Inr ()"
  shows "mapping_of src (snd (transition src dst i d)) = (mapping_of src d)(i := None)"
    and "mapping_of dst (snd (transition src dst i d)) = (mapping_of dst d)(i \<mapsto> pm)"
proof -
  from assms(2) have own: "own_entries (metadata_of src d) i = Some pm"
    by (simp add: mapping_of_def)
  then have get: "js_get (metadata_of src d) i = Some (Object pm)" by (rule js_get_own)
  from own have ne: "i \<noteq> ''__proto__''" by (rule own_entries_present_ne_proto)
  from transition_truthy_completed(1) [OF assms(1) get assms(3)]
  show "mapping_of src (snd (transition src dst i d)) = (mapping_of src d)(i := None)"
    by (simp add: mapping_of_def)
  from transition_truthy_completed(2) [OF assms(1) get assms(3)] ne
  show "mapping_of dst (snd (transition src dst i d)) = (mapping_of dst d)(i \<mapsto> pm)"
    by (simp add: mapping_of_def own_entries_assign_Object)
qed

lemma getLocalPaper_eq:
  "getLocalPaper i d =
     (case js_get (metadata_of Unread d) i of
        Some v \<Rightarrow> Inr (Some (convertMetadataToLocalPaper i (fields_of v) Unread))
      | None \<Rightarrow>
          (case js_get (metadata_of Read d) i of
             Some v \<Rightarrow> Inr (Some (convertMetadataToLocalPaper i (fields_of v) Read))
           | None \<Rightarrow> Inr None))"
  by (simp add: getLocalPaper_def readMetadataFile_Inr split: option.splits)


lemma getLocalPaper_plain:
  "\<not> inherited_name i \<Longrightarrow>
   getLocalPaper i d =
     (case mapping_of Unread d i of
        Some pm \<Rightarrow> Inr (Some (convertMetadataToLocalPaper i pm Unread))
      | None \<Rightarrow>
          (case mapping_of Read d i of
             Some pm \<Rightarrow> Inr (Some (convertMetadataToLocalPaper i pm Read))
           | None \<Rightarrow> Inr None))"
  by (simp add: getLocalPaper_eq mapping_of_def js_get_plain fields_of_def split: option.splits)

text \<open>
  C8. Reading the metadata mapping of a collection never rejects: it always returns a mapping,
  and the mapping is empty when the metadata file is missing, when it cannot be read (access
  refused, or a directory in its place) and when its content is not valid JSON.
\<close>

theorem C8_readMetadataFile_fails_open:
  "(\<exists>m. readMetadataFile status d = Inr m) \<and>
   (\<forall>e. readFile (metadataPath status) d = Inl e \<longrightarrow> readMetadataFile status d = Inr empty_object) \<and>
   (\<forall>t. readFile (metadataPath status) d = Inr (Raw t) \<longrightarrow> readMetadataFile status d = Inr empty_object) \<and>
   own_entries empty_object = Map.empty"
  by (simp add: readMetadataFile_def JSON_parse_def empty_object.rep_eq
      split: sum.splits file_data.splits)

theorem C8_readMetadataFile_fails_open_witness:
  "readFile (metadataPath Unread) (\<lparr>nodes = Map.empty, denied = {}, read_only = {}\<rparr> :: papers_fs)
     = Inl ENOENT \<and>
   readMetadataFile Unread \<lparr>nodes = Map.empty, denied = {}, read_only = {}\<rparr> = Inr empty_object \<and>
   readFile (metadataPath Read)
     (\<lparr>nodes = [metadataPath Read \<mapsto> File (Raw ''{not json'')], denied = {}, read_only = {}\<rparr>
        :: papers_fs)
     = Inr (Raw ''{not json'') \<and>
   readMetadataFile Read
     \<lparr>nodes = [metadataPath Read \<mapsto> File (Raw ''{not json'')], denied = {}, read_only = {}\<rparr>
     = Inr empty_object"
proof -
  let ?d0 = "\<lparr>nodes = Map.empty, denied = {}, read_only = {}\<rparr> :: papers_fs"
  let ?d1 = "\<lparr>nodes = [metadataPath Read \<mapsto> File (Raw ''{not json'')], denied = {},
              read_only = {}\<rparr> :: papers_fs"
  have h0: "readFile (metadataPath Unread) ?d0 = Inl ENOENT" by (simp add: readFile_def)
  have h1: "readFile (metadataPath Read) ?d1 = Inr (Raw ''{not json'')" by (simp add: readFile_def)
  from C8_readMetadataFile_fails_open [of Unread ?d0] h0
  have a: "readMetadataFile Unread ?d0 = Inr empty_object" by blast
  from C8_readMetadataFile_fails_open [of Read ?d1] h1
  have b: "readMetadataFile Read ?d1 = Inr empty_object" by blast
  from h0 a h1 b show ?thesis by blast
qed

subsection \<open>Operations keyed by an identifier that no collection lists\<close>

lemma updatePaperMetadata_undefined:
  "js_get (metadata_of Unread d) i = None \<Longrightarrow> js_get (metadata_of Read d) i = None \<Longrightarrow>
   updatePaperMetadata i f d = (Inr (), d)"
  by (simp add: updatePaperMetadata_def readMetadataFile_Inr)

lemma deleteLocalPaper_undefined:
  "js_get (metadata_of Unread d) i = None \<Longrightarrow> js_get (metadata_of Read d) i = None \<Longrightarrow>
   deleteLocalPaper i d = (Inr (), d)"
  by (simp add: deleteLocalPaper_def readMetadataFile_Inr)

text \<open>
  An identifier that is in neither mapping and is not the name of a property every object
  inherits: the property read gives \<^verbatim>\<open>undefined\<close> in both collections, and each of the
  seven operations returns the disk it was given.
\<close>

lemma plain_absent_identifier_is_noop:
  assumes "\<not> inherited_name i"
    and "mapping_of Unread d i = None" and "mapping_of Read d i = None"
  shows "markPaperAsRead i d = (Inr (), d) \<and>
         markPaperAsUnread i d = (Inr (), d) \<and>
         deleteLocalPaper i d = (Inr (), d) \<and>
         setPaperStarred i b d = (Inr (), d) \<and>
         setPaperArchived i b d = (Inr (), d) \<and>
         addPaperTag i tag d = (Inr (), d) \<and>
         removePaperTag i tag d = (Inr (), d)"
proof -
  from assms have u: "js_get (metadata_of Unread d) i = None"
    and r: "js_get (metadata_of Read d) i = None"
    by (simp_all add: js_get_plain mapping_of_def)
  from u r show ?thesis
    by (simp add: markPaperAsRead_def markPaperAsUnread_def transition_undefined
        deleteLocalPaper_undefined setPaperStarred_def setPaperArchived_def addPaperTag_def
        removePaperTag_def updatePaperMetadata_undefined)
qed

text \<open>
  C9 fails on the code. The guards \<^verbatim>\<open>if (metadataFile[id])\<close> and \<^verbatim>\<open>if (!paperMeta) return\<close>
  test a property read, which also finds what the object inherits, where \<^verbatim>\<open>listLocalPapers\<close>
  tests \<^verbatim>\<open>hasOwnProperty\<close>. The identifier \<^verbatim>\<open>constructor\<close> is in neither mapping of the
  example disk, and yet: setPaperStarred, setPaperArchived and addPaperTag each write a new
  entry for it into the unread collection's mapping, removePaperTag rejects with a TypeError,
  and markPaperAsRead goes through the whole transition (it writes both metadata files, the
  read collection's for the first time).
\<close>

theorem C9_inherited_identifier_is_not_noop:
  "mapping_of Unread example_disk ''constructor'' = None \<and>
   mapping_of Read example_disk ''constructor'' = None \<and>
   fst (setPaperStarred ''constructor'' True example_disk) = Inr () \<and>
   snd (setPaperStarred ''constructor'' True example_disk) = constructor_disk \<and>
   mapping_of Unread constructor_disk ''constructor'' = Some (no_fields\<lparr>starred := Some True\<rparr>) \<and>
   mapping_of Unread (snd (setPaperArchived ''constructor'' True example_disk)) ''constructor''
     = Some (no_fields\<lparr>archived := Some True\<rparr>) \<and>
   mapping_of Unread (snd (addPaperTag ''constructor'' ''nlp'' example_disk)) ''constructor''
     = Some (no_fields\<lparr>tags := Some [''nlp'']\<rparr>) \<and>
   fst (removePaperTag ''constructor'' ''nlp'' example_disk) = Inl TypeError \<and>
   fst (markPaperAsRead ''constructor'' example_disk) = Inr () \<and>
   \<not> existsSync (metadataPath Read) example_disk \<and>
   existsSync (metadataPath Read) (snd (markPaperAsRead ''constructor'' example_disk))"
  by (simp add: example_disk_def constructor_disk_def example_metadata_def papers_defs js_defs
      fs_defs path_defs array_from_set_def Let_def)



text \<open>
  For an identifier that is not the name of a property every object inherits: if it is in the
  unread collection's mapping and markPaperAsRead completes, then getLocalPaper returns the
  record of the read collection (built with status read, so its file path is the PDF path in
  the read directory), and the identifier is no longer in the unread collection's mapping.
\<close>

lemma plain_markPaperAsRead_then_get:
  assumes "\<not> inherited_name i"
    and "mapping_of Unread d i = Some pm" and "fst (markPaperAsRead i d) = Inr ()"
  shows "getLocalPaper i (snd (markPaperAsRead i d))
           = Inr (Some (convertMetadataToLocalPaper i pm Read)) \<and>
         lp_filePath (convertMetadataToLocalPaper i pm Read)
           = path_join read_paper_directory (i @ ''.pdf'') \<and>
         lp_filePath (convertMetadataToLocalPaper i pm Read) \<noteq> getPaperFilePath i Unread \<and>
         mapping_of Unread (snd (markPaperAsRead i d)) i = None"
proof -
  have ne: "Unread \<noteq> Read" by simp
  from assms(3) have ok: "fst (transition Unread Read i d) = Inr ()"
    by (simp add: markPaperAsRead_def)
  from transition_completed [OF ne assms(2) ok]
  have u: "mapping_of Unread (snd (markPaperAsRead i d)) i = None"
    and r: "mapping_of Read (snd (markPaperAsRead i d)) i = Some pm"
    by (simp_all add: markPaperAsRead_def)
  have p: "lp_filePath (convertMetadataToLocalPaper i pm Read)
             = path_join read_paper_directory (i @ ''.pdf'')"
    by (simp add: convertMetadataToLocalPaper_def getPaperFilePath_def status_directory_def)
  have q: "lp_filePath (convertMetadataToLocalPaper i pm Read) \<noteq> getPaperFilePath i Unread"
    by (simp add: convertMetadataToLocalPaper_def)
  from u r p q assms(1) show ?thesis by (simp add: getLocalPaper_plain)
qed

text \<open>
  C2 fails on the code, by the guard of C9: \<^verbatim>\<open>getLocalPaper\<close> tests \<^verbatim>\<open>if (metadata[id])\<close>,
  unread collection first. On the disk that \<^verbatim>\<open>setPaperStarred('constructor', true)\<close> leaves,
  the identifier \<^verbatim>\<open>constructor\<close> is in the unread mapping; markPaperAsRead completes and
  moves the entry to the read mapping; and getLocalPaper then returns a record of the unread
  collection, built from the inherited \<^verbatim>\<open>constructor\<close> function: none of the stored fields,
  and the PDF path in the unread directory.
\<close>

theorem C2_inherited_identifier_found_unread:
  "mapping_of Unread constructor_disk ''constructor'' = Some (no_fields\<lparr>starred := Some True\<rparr>) \<and>
   fst (markPaperAsRead ''constructor'' constructor_disk) = Inr () \<and>
   mapping_of Unread (snd (markPaperAsRead ''constructor'' constructor_disk)) ''constructor''
     = None \<and>
   mapping_of Read (snd (markPaperAsRead ''constructor'' constructor_disk)) ''constructor''
     = Some (no_fields\<lparr>starred := Some True\<rparr>) \<and>
   getLocalPaper ''constructor'' (snd (markPaperAsRead ''constructor'' constructor_disk))
     = Inr (Some (convertMetadataToLocalPaper ''constructor'' no_fields Unread)) \<and>
   lp_filePath (convertMetadataToLocalPaper ''constructor'' no_fields Unread)
     = ''/home/user/.arxiv-reader/unreadPapers/constructor.pdf'' \<and>
   lp_starred (convertMetadataToLocalPaper ''constructor'' no_fields Unread) = None"
  by (simp add: constructor_disk_def example_disk_def example_metadata_def papers_defs js_defs
      fs_defs path_defs convertMetadataToLocalPaper_def Let_def)



subsection \<open>Deleting a paper\<close>

lemma deleteLocalPaper_loop_truthy:
  assumes "js_get (metadata_of s d) i = Some v"
    and "deleteLocalPaper_loop (s # rest) i d = (Inr u, d')"
  shows "metadata_of s d' = js_delete (metadata_of s d) i"
    and "s' \<noteq> s \<Longrightarrow> metadata_of s' d' = metadata_of s' d"
proof -
  let ?p = "getPaperFilePath i s"
  let ?unlinked = "case unlink ?p d of
                     Inl e \<Rightarrow> if e \<noteq> ENOENT then Inl e else Inr d
                   | Inr d1 \<Rightarrow> Inr d1"
  from assms have t:
    "(case ?unlinked of
        Inl e \<Rightarrow> (Inl e, d)
      | Inr d1 \<Rightarrow>
          (case writeMetadataFile s (js_delete (metadata_of s d) i) d1 of
             Inl e \<Rightarrow> (Inl e, d1)
           | Inr d2 \<Rightarrow> (Inr (), d2))) = (Inr u, d')"
    by (simp add: readMetadataFile_Inr Let_def)
  then obtain d1 where un: "?unlinked = Inr d1"
    by (cases ?unlinked) auto
  have same: "metadata_of s'' d1 = metadata_of s'' d" for s''
  proof (cases "unlink ?p d")
    case (Inl e)
    with un show ?thesis by (simp split: if_splits)
  next
    case (Inr d1')
    with un have "d1' = d1" by simp
    with metadata_of_unlink_pdf Inr show ?thesis by blast
  qed
  from t un have w: "writeMetadataFile s (js_delete (metadata_of s d) i) d1 = Inr d'"
    by (cases "writeMetadataFile s (js_delete (metadata_of s d) i) d1") auto
  from metadata_of_write_same [OF w] show "metadata_of s d' = js_delete (metadata_of s d) i" .
  from metadata_of_write_other [OF w] same
  show "s' \<noteq> s \<Longrightarrow> metadata_of s' d' = metadata_of s' d" by simp
qed

lemma deleteLocalPaper_completed:
  assumes "\<not> inherited_name i" and "fst (deleteLocalPaper i d) = Inr ()"
  shows "mapping_of Unread d i \<noteq> None \<Longrightarrow>
           mapping_of Unread (snd (deleteLocalPaper i d)) = (mapping_of Unread d)(i := None) \<and>
           mapping_of Read (snd (deleteLocalPaper i d)) = mapping_of Read d"
    and "mapping_of Unread d i = None \<Longrightarrow>
           mapping_of Unread (snd (deleteLocalPaper i d)) = mapping_of Unread d \<and>
           mapping_of Read (snd (deleteLocalPaper i d)) = (mapping_of Read d)(i := None)"
proof -
  from assms(2) have eq: "deleteLocalPaper i d = (Inr (), snd (deleteLocalPaper i d))"
    by (cases "deleteLocalPaper i d") simp
  {
    assume "mapping_of Unread d i \<noteq> None"
    then obtain pm where pm: "own_entries (metadata_of Unread d) i = Some pm"
      by (auto simp add: mapping_of_def)
    from eq have "deleteLocalPaper_loop (Unread # [Read]) i d = (Inr (), snd (deleteLocalPaper i d))"
      by (simp add: deleteLocalPaper_def)
    from deleteLocalPaper_loop_truthy(1) [OF js_get_own [OF pm] this]
      deleteLocalPaper_loop_truthy(2) [OF js_get_own [OF pm] this, of Read]
    show "mapping_of Unread (snd (deleteLocalPaper i d)) = (mapping_of Unread d)(i := None) \<and>
          mapping_of Read (snd (deleteLocalPaper i d)) = mapping_of Read d"
      by (simp add: mapping_of_def)
  }
  {
    assume none: "mapping_of Unread d i = None"
    with assms(1) have gu: "js_get (metadata_of Unread d) i = None"
      by (simp add: js_get_plain mapping_of_def)
    show "mapping_of Unread (snd (deleteLocalPaper i d)) = mapping_of Unread d \<and>
          mapping_of Read (snd (deleteLocalPaper i d)) = (mapping_of Read d)(i := None)"
    proof (cases "mapping_of Read d i")
      case None
      with assms(1) have "js_get (metadata_of Read d) i = None"
        by (simp add: js_get_plain mapping_of_def)
      with gu have "deleteLocalPaper i d = (Inr (), d)" by (rule deleteLocalPaper_undefined)
      with None show ?thesis by (auto simp add: fun_eq_iff)
    next
      case (Some pm)
      then have pm: "own_entries (metadata_of Read d) i = Some pm" by (simp add: mapping_of_def)
      from eq gu have "deleteLocalPaper_loop (Read # []) i d = (Inr (), snd (deleteLocalPaper i d))"
        by (simp add: deleteLocalPaper_def readMetadataFile_Inr)
      from deleteLocalPaper_loop_truthy(1) [OF js_get_own [OF pm] this]
        deleteLocalPaper_loop_truthy(2) [OF js_get_own [OF pm] this, of Unread]
      show ?thesis by (simp add: mapping_of_def)
    qed
  }
qed

lemma deleteLocalPaper_absent:
  "\<not> inherited_name i \<Longrightarrow> mapping_of Unread d i = None \<Longrightarrow> mapping_of Read d i = None \<Longrightarrow>
   deleteLocalPaper i d = (Inr (), d)"
  by (rule deleteLocalPaper_undefined) (simp_all add: js_get_plain mapping_of_def)

text \<open>
  C6, as the code has it, for an identifier that is not the name of a property every object
  inherits. When the identifier is in at most one collection's mapping and a first
  deleteLocalPaper completes, a second call completes without error, changes nothing, and the
  identifier is in neither mapping. In any state, when both calls complete the identifier is in
  neither mapping afterwards. (A call stops at the first collection that lists the identifier
  and rethrows every error of the PDF removal other than "file not found".)
\<close>

theorem C6_deleteLocalPaper_twice:
  assumes "\<not> inherited_name i"
  shows
  "(\<not> (mapping_of Unread d i \<noteq> None \<and> mapping_of Read d i \<noteq> None) \<and>
    fst (deleteLocalPaper i d) = Inr () \<longrightarrow>
      deleteLocalPaper i (snd (deleteLocalPaper i d)) = (Inr (), snd (deleteLocalPaper i d)) \<and>
      mapping_of Unread (snd (deleteLocalPaper i d)) i = None \<and>
      mapping_of Read (snd (deleteLocalPaper i d)) i = None) \<and>
   (fst (deleteLocalPaper i d) = Inr () \<and>
    fst (deleteLocalPaper i (snd (deleteLocalPaper i d))) = Inr () \<longrightarrow>
      mapping_of Unread (snd (deleteLocalPaper i (snd (deleteLocalPaper i d)))) i = None \<and>
      mapping_of Read (snd (deleteLocalPaper i (snd (deleteLocalPaper i d)))) i = None)"
proof (intro conjI impI)
  note pl = assms
  let ?d1 = "snd (deleteLocalPaper i d)"
  assume a: "\<not> (mapping_of Unread d i \<noteq> None \<and> mapping_of Read d i \<noteq> None) \<and>
             fst (deleteLocalPaper i d) = Inr ()"
  then have ok: "fst (deleteLocalPaper i d) = Inr ()" by simp
  have both: "mapping_of Unread ?d1 i = None \<and> mapping_of Read ?d1 i = None"
  proof (cases "mapping_of Unread d i")
    case None
    from deleteLocalPaper_completed(2) [OF pl ok None] None show ?thesis by simp
  next
    case (Some pm)
    with a have "mapping_of Read d i = None" by simp
    with deleteLocalPaper_completed(1) [OF pl ok] Some show ?thesis by simp
  qed
  then show "mapping_of Unread ?d1 i = None" and "mapping_of Read ?d1 i = None" by simp_all
  from both pl show "deleteLocalPaper i ?d1 = (Inr (), ?d1)"
    by (simp add: deleteLocalPaper_absent)
next
  note pl = assms
  let ?d1 = "snd (deleteLocalPaper i d)"
  let ?d2 = "snd (deleteLocalPaper i ?d1)"
  assume a: "fst (deleteLocalPaper i d) = Inr () \<and> fst (deleteLocalPaper i ?d1) = Inr ()"
  then have ok1: "fst (deleteLocalPaper i d) = Inr ()"
    and ok2: "fst (deleteLocalPaper i ?d1) = Inr ()" by simp_all
  have both: "mapping_of Unread ?d2 i = None \<and> mapping_of Read ?d2 i = None"
  proof (cases "mapping_of Unread d i")
    case None
    from deleteLocalPaper_completed(2) [OF pl ok1 None] None
    have u1: "mapping_of Unread ?d1 i = None" and r1: "mapping_of Read ?d1 i = None"
      by simp_all
    from deleteLocalPaper_completed(2) [OF pl ok2 u1] u1 show ?thesis by simp
  next
    case (Some pm)
    with deleteLocalPaper_completed(1) [OF pl ok1]
    have u1: "mapping_of Unread ?d1 i = None" by simp
    from deleteLocalPaper_completed(2) [OF pl ok2 u1] u1 show ?thesis by simp
  qed
  then show "mapping_of Unread ?d2 i = None" and "mapping_of Read ?d2 i = None" by simp_all
qed

theorem C6_deleteLocalPaper_twice_witness:
  "\<not> inherited_name ''1706.03762'' \<and>
   \<not> (mapping_of Unread example_disk ''1706.03762'' \<noteq> None \<and>
      mapping_of Read example_disk ''1706.03762'' \<noteq> None) \<and>
   fst (deleteLocalPaper ''1706.03762'' example_disk) = Inr () \<and>
   fst (deleteLocalPaper ''1706.03762'' (snd (deleteLocalPaper ''1706.03762'' example_disk)))
     = Inr () \<and>
   deleteLocalPaper ''1706.03762'' (snd (deleteLocalPaper ''1706.03762'' example_disk))
     = (Inr (), snd (deleteLocalPaper ''1706.03762'' example_disk)) \<and>
   mapping_of Unread (snd (deleteLocalPaper ''1706.03762'' example_disk)) ''1706.03762'' = None \<and>
   mapping_of Read (snd (deleteLocalPaper ''1706.03762'' example_disk)) ''1706.03762'' = None \<and>
   mapping_of Unread (snd (deleteLocalPaper ''1706.03762''
      (snd (deleteLocalPaper ''1706.03762'' example_disk)))) ''1706.03762'' = None \<and>
   mapping_of Read (snd (deleteLocalPaper ''1706.03762''
      (snd (deleteLocalPaper ''1706.03762'' example_disk)))) ''1706.03762'' = None"
proof -
  have a: "\<not> (mapping_of Unread example_disk ''1706.03762'' \<noteq> None \<and>
      mapping_of Read example_disk ''1706.03762'' \<noteq> None)"
    by (simp add: example_disk_def example_metadata_def papers_defs js_defs fs_defs path_defs)
  have b: "fst (deleteLocalPaper ''1706.03762'' example_disk) = Inr ()"
    by (simp add: example_disk_def example_metadata_def papers_defs js_defs fs_defs path_defs)
  have c: "fst (deleteLocalPaper ''1706.03762''
             (snd (deleteLocalPaper ''1706.03762'' example_disk))) = Inr ()"
    by (simp add: example_disk_def example_metadata_def papers_defs js_defs fs_defs path_defs)
  have p: "\<not> inherited_name ''1706.03762''"
    by (simp add: inherited_name_def Object_prototype_methods_def)
  from C6_deleteLocalPaper_twice [OF p, of example_disk] p a b c
  show ?thesis by blast
qed

text \<open>
  The claim as stated fails in two ways. With the identifier listed in both collections and the
  PDF of the read collection held open, the first call completes (it removes the unread entry)
  and the second call rejects with the error of the PDF removal. And for the identifier
  \<^verbatim>\<open>constructor\<close>, listed in the read collection only, both calls complete and the identifier
  is still in the read collection's mapping: each call stops at the unread collection, where
  the guard \<^verbatim>\<open>if (metadata[id])\<close> finds the inherited function.
\<close>

theorem C6_deleteLocalPaper_twice_counterexample:
  "fst (deleteLocalPaper ''1706.03762'' locked_disk) = Inr () \<and>
   fst (deleteLocalPaper ''1706.03762'' (snd (deleteLocalPaper ''1706.03762'' locked_disk)))
     = Inl EACCES \<and>
   mapping_of Unread constructor_read_disk ''constructor'' = None \<and>
   fst (deleteLocalPaper ''constructor'' constructor_read_disk) = Inr () \<and>
   fst (deleteLocalPaper ''constructor''
          (snd (deleteLocalPaper ''constructor'' constructor_read_disk))) = Inr () \<and>
   mapping_of Read
     (snd (deleteLocalPaper ''constructor''
        (snd (deleteLocalPaper ''constructor'' constructor_read_disk)))) ''constructor''
     = Some (no_fields\<lparr>starred := Some True\<rparr>)"
  by (simp add: locked_disk_def constructor_read_disk_def example_metadata_def papers_defs js_defs
      fs_defs path_defs Let_def)

subsection \<open>A transition whose source PDF is missing\<close>






lemma mkdir_denied: "mkdir_recursive p d = Inr d' \<Longrightarrow> denied d' = denied d"
  by (drule mkdir_recursive_Inr) auto

lemma mkdir_keeps_file:
  "mkdir_recursive p d = Inr d' \<Longrightarrow> nodes d q = Some (File c) \<Longrightarrow> nodes d' q = Some (File c)"
  by (drule mkdir_recursive_Inr) auto








section \<open>Theorems on the part extraction\<close>

lemma match_literal_iff: "match_literal p s = Some r \<longleftrightarrow> s = p @ r"
  by (induction p s rule: match_literal.induct) auto

lemma match_literal_append [simp]: "match_literal p (p @ r) = Some r"
  by (simp add: match_literal_iff)

lemma match_uri_tail_iff:
  "match_uri_tail s = Some (run, r) \<longleftrightarrow>
     s = run @ CHR 0x29 # r \<and> run \<noteq> [] \<and> CHR 0x29 \<notin> set run"
proof
  let ?P = "\<lambda>c. c \<noteq> CHR 0x29"
  assume a: "match_uri_tail s = Some (run, r)"
  then have run: "run = takeWhile ?P s" and r: "r = tl (dropWhile ?P s)"
    and ne: "run \<noteq> []" "dropWhile ?P s \<noteq> []"
    by (auto simp add: match_uri_tail_def Let_def split: if_splits)
  from ne(2) have "\<not> ?P (hd (dropWhile ?P s))" by (rule hd_dropWhile)
  with ne(2) r have "dropWhile ?P s = CHR 0x29 # r"
    by (cases "dropWhile ?P s") auto
  with run have "s = run @ CHR 0x29 # r"
    using takeWhile_dropWhile_id [of ?P s] by simp
  moreover from run have "CHR 0x29 \<notin> set run" by (auto dest: set_takeWhileD)
  ultimately show "s = run @ CHR 0x29 # r \<and> run \<noteq> [] \<and> CHR 0x29 \<notin> set run"
    using ne(1) by simp
next
  let ?P = "\<lambda>c. c \<noteq> CHR 0x29"
  assume a: "s = run @ CHR 0x29 # r \<and> run \<noteq> [] \<and> CHR 0x29 \<notin> set run"
  then have all: "\<forall>c\<in>set run. ?P c" by auto
  from all have t: "takeWhile ?P (run @ CHR 0x29 # r) = run"
    by (simp add: takeWhile_tail)
  from all have d: "dropWhile ?P (run @ CHR 0x29 # r) = CHR 0x29 # r"
    by (simp add: dropWhile_append3)
  from a t d show "match_uri_tail s = Some (run, r)"
    by (simp add: match_uri_tail_def Let_def)
qed

lemma match_close_iff:
  "match_close s = Some (g, r) \<longleftrightarrow>
     (\<exists>run. s = ''](data:image/'' @ run @ CHR 0x29 # r \<and> g = ''data:image/'' @ run \<and>
            run \<noteq> [] \<and> CHR 0x29 \<notin> set run)"
proof
  assume "match_close s = Some (g, r)"
  then obtain t run where l: "match_literal ''](data:image/'' s = Some t"
    and u: "match_uri_tail t = Some (run, r)" and g: "g = ''data:image/'' @ run"
    by (auto simp add: match_close_def split: option.splits)
  from l have "s = ''](data:image/'' @ t" by (simp only: match_literal_iff)
  with u g show "\<exists>run. s = ''](data:image/'' @ run @ CHR 0x29 # r \<and> g = ''data:image/'' @ run \<and>
            run \<noteq> [] \<and> CHR 0x29 \<notin> set run"
    by (auto simp add: match_uri_tail_iff)
next
  assume "\<exists>run. s = ''](data:image/'' @ run @ CHR 0x29 # r \<and> g = ''data:image/'' @ run \<and>
            run \<noteq> [] \<and> CHR 0x29 \<notin> set run"
  then obtain run where s: "s = ''](data:image/'' @ (run @ CHR 0x29 # r)"
    and g: "g = ''data:image/'' @ run" and run: "run \<noteq> []" "CHR 0x29 \<notin> set run"
    by auto
  from run have "match_uri_tail (run @ CHR 0x29 # r) = Some (run, r)"
    by (simp add: match_uri_tail_iff)
  with g show "match_close s = Some (g, r)"
    unfolding match_close_def s match_literal_append by simp
qed

lemma match_close_other_start: "c \<noteq> CHR '']'' \<Longrightarrow> match_close (c # cs) = None"
  by (simp add: match_close_def)

lemma match_alt_of_close: "match_close t = Some x \<Longrightarrow> match_alt t = Some x"
  by (cases t) simp_all

lemma match_alt_sound:
  "match_alt s = Some x \<Longrightarrow>
   \<exists>alt t. s = alt @ t \<and> match_close t = Some x \<and> (\<forall>c\<in>set alt. \<not> line_terminator c)"
proof (induction s)
  case Nil
  then have "match_close [] = Some x" by simp
  then show ?case by (intro exI [of _ "[]"]) simp
next
  case (Cons c cs)
  show ?case
  proof (cases "match_close (c # cs)")
    case (Some y)
    with Cons.prems have "match_close (c # cs) = Some x" by simp
    then show ?thesis by (intro exI [of _ "[]"] exI [of _ "c # cs"]) simp
  next
    case None
    with Cons.prems have nl: "\<not> line_terminator c" and "match_alt cs = Some x"
      by (simp_all split: if_splits)
    from Cons.IH [OF this(2)] obtain alt t where
      a: "cs = alt @ t" "match_close t = Some x" "\<forall>c\<in>set alt. \<not> line_terminator c" by blast
    from nl a show ?thesis by (intro exI [of _ "c # alt"] exI [of _ t]) simp
  qed
qed

lemma match_alt_complete:
  "\<forall>c\<in>set alt. \<not> line_terminator c \<Longrightarrow> match_close t \<noteq> None \<Longrightarrow> match_alt (alt @ t) \<noteq> None"
proof (induction alt)
  case Nil
  then show ?case by (auto simp add: match_alt_of_close)
next
  case (Cons a alt)
  then show ?case by (cases "match_close (a # alt @ t)") auto
qed

lemma match_alt_skip:
  "\<forall>c\<in>set alt. c \<noteq> CHR '']'' \<and> \<not> line_terminator c \<Longrightarrow> match_alt (alt @ t) = match_alt t"
  by (induction alt) (simp_all add: match_close_other_start)

lemma regex_exec_sound:
  "regex_exec s = Some (skipped, g, r) \<Longrightarrow> \<exists>u. s = skipped @ u \<and> match_here u = Some (g, r)"
proof (induction s arbitrary: skipped)
  case Nil
  then show ?case by simp
next
  case (Cons c cs)
  show ?case
  proof (cases "match_here (c # cs)")
    case (Some y)
    with Cons.prems have "skipped = []" and "match_here (c # cs) = Some (g, r)"
      by (auto split: prod.splits)
    then show ?thesis by simp
  next
    case None
    with Cons.prems obtain sk where sk: "regex_exec cs = Some (sk, g, r)" and "skipped = c # sk"
      by (auto split: option.splits)
    from Cons.IH [OF sk] \<open>skipped = c # sk\<close> show ?thesis by auto
  qed
qed

lemma regex_exec_complete: "match_here u \<noteq> None \<Longrightarrow> regex_exec (before @ u) \<noteq> None"
proof (induction before)
  case Nil
  then show ?case by (cases u) (auto simp add: match_here_def)
next
  case (Cons b before)
  then show ?case by (cases "match_here (b # before @ u)") (auto split: option.splits)
qed

text \<open>The scan finds a match exactly in the texts that hold an image reference.\<close>

lemma regex_exec_finds_image_reference: "regex_exec s \<noteq> None \<longleftrightarrow> has_image_reference s"
proof
  assume "regex_exec s \<noteq> None"
  then obtain skipped g r where "regex_exec s = Some (skipped, g, r)" by auto
  from regex_exec_sound [OF this] obtain u where s: "s = skipped @ u"
    and "match_here u = Some (g, r)" by blast
  then obtain v where u: "u = ''!['' @ v" and "match_alt v = Some (g, r)"
    by (auto simp add: match_here_def match_literal_iff split: option.splits)
  from match_alt_sound [OF this(2)] obtain alt t where v: "v = alt @ t"
    and c: "match_close t = Some (g, r)" and nl: "\<forall>c\<in>set alt. \<not> line_terminator c" by blast
  from c obtain run where t: "t = ''](data:image/'' @ run @ CHR 0x29 # r"
    and run: "run \<noteq> []" "CHR 0x29 \<notin> set run"
    unfolding match_close_iff by blast
  from s u v t have "s = skipped @ image_reference alt run @ r"
    by (simp add: image_reference_def)
  with nl run show "has_image_reference s" unfolding has_image_reference_def by blast
next
  assume "has_image_reference s"
  then obtain before alt payload after where
    s: "s = before @ image_reference alt payload @ after"
    and nl: "\<forall>c\<in>set alt. \<not> line_terminator c"
    and p: "payload \<noteq> []" "CHR 0x29 \<notin> set payload"
    unfolding has_image_reference_def by blast
  let ?t = "''](data:image/'' @ payload @ CHR 0x29 # after"
  from p have "match_close ?t = Some (''data:image/'' @ payload, after)"
    unfolding match_close_iff by blast
  then have "match_close ?t \<noteq> None" by simp
  from match_alt_complete [OF nl this] have "match_here (''!['' @ alt @ ?t) \<noteq> None"
    unfolding match_here_def match_literal_append by simp
  from regex_exec_complete [OF this, of before] s show "regex_exec s \<noteq> None"
    by (simp add: image_reference_def)
qed

lemma extract_no_reference:
  assumes "\<not> has_image_reference s" and "s \<noteq> []"
  shows "extractPartsFromResult s = [TextPart s]"
proof -
  from assms(1) have "regex_exec s = None"
    using regex_exec_finds_image_reference [of s] by blast
  with assms(2) show ?thesis
    by (simp add: extractPartsFromResult_def extract_loop.simps [of s])
qed

lemma extract_empty: "extractPartsFromResult [] = []"
  by (simp add: extractPartsFromResult_def extract_loop.simps)

lemma extract_single_reference:
  assumes "\<forall>c\<in>set alt. c \<noteq> CHR '']'' \<and> \<not> line_terminator c"
    and "payload \<noteq> []" and "CHR 0x29 \<notin> set payload"
  shows "extractPartsFromResult (image_reference alt payload) = [ImagePart (''data:image/'' @ payload)]"
proof -
  let ?t = "''](data:image/'' @ payload @ CHR 0x29 # []"
  from assms(2,3) have c: "match_close ?t = Some (''data:image/'' @ payload, [])"
    unfolding match_close_iff by blast
  have "match_here (''!['' @ alt @ ?t) = match_alt (alt @ ?t)"
    unfolding match_here_def match_literal_append by simp
  also from assms(1) have "\<dots> = match_alt ?t" by (rule match_alt_skip)
  also from c have "\<dots> = Some (''data:image/'' @ payload, [])" by (rule match_alt_of_close)
  finally have "match_here (image_reference alt payload) = Some (''data:image/'' @ payload, [])"
    by (simp add: image_reference_def)
  then have "regex_exec (image_reference alt payload) = Some ([], ''data:image/'' @ payload, [])"
    by (simp add: image_reference_def)
  then show ?thesis
    by (simp add: extractPartsFromResult_def extract_loop.simps [of "image_reference alt payload"]
        extract_loop.simps [of "[]"])
qed

lemma extract_example:
  "extractPartsFromResult ''A ![x](data:image/png;base64,Zm9v) B''
     = [TextPart ''A '', ImagePart ''data:image/png;base64,Zm9v'', TextPart '' B'']"
  by (simp add: extractPartsFromResult_def extract_loop.simps match_here_def match_close_def
      match_uri_tail_def line_terminator_def)

text \<open>
  C5, as the code has it. A non-empty input with no data-URI image reference gives exactly one text
  segment, the whole input; the empty input gives no segment at all (the trailing text segment is
  pushed only when some input is left). The input \<^verbatim>\<open>A ![x](data:image/png;base64,Zm9v) B\<close>
  gives the text \<^verbatim>\<open>A \<close>, the image \<^verbatim>\<open>data:image/png;base64,Zm9v\<close> and the text
  \<^verbatim>\<open> B\<close>. An input that is one image reference and nothing else (alternative text on
  one line with no closing bracket, non-empty payload with no closing parenthesis) gives exactly
  one image segment and no text segment.
\<close>

theorem C5_extractPartsFromResult:
  "(\<not> has_image_reference s \<and> s \<noteq> [] \<longrightarrow> extractPartsFromResult s = [TextPart s]) \<and>
   extractPartsFromResult [] = [] \<and>
   extractPartsFromResult ''A ![x](data:image/png;base64,Zm9v) B''
     = [TextPart ''A '', ImagePart ''data:image/png;base64,Zm9v'', TextPart '' B''] \<and>
   ((\<forall>c\<in>set alt. c \<noteq> CHR '']'' \<and> \<not> line_terminator c) \<and>
    payload \<noteq> [] \<and> CHR 0x29 \<notin> set payload \<longrightarrow>
      extractPartsFromResult (image_reference alt payload)
        = [ImagePart (''data:image/'' @ payload)])"
  using extract_no_reference [of s] extract_empty extract_example
    extract_single_reference [of alt payload]
  by blast

theorem C5_extractPartsFromResult_witness:
  "extractPartsFromResult ''# Title'' = [TextPart ''# Title''] \<and>
   extractPartsFromResult ''![fig 1](data:image/png;base64,Zm9v)''
     = [ImagePart ''data:image/png;base64,Zm9v'']"
proof -
  have "regex_exec ''# Title'' = None"
    by (simp add: match_here_def)
  then have a: "\<not> has_image_reference ''# Title''"
    using regex_exec_finds_image_reference [of "''# Title''"] by simp
  have b: "''# Title'' \<noteq> []" by simp
  have c: "\<forall>c\<in>set ''fig 1''. c \<noteq> CHR '']'' \<and> \<not> line_terminator c"
    by (simp add: line_terminator_def)
  have d: "''png;base64,Zm9v'' \<noteq> []" "CHR 0x29 \<notin> set ''png;base64,Zm9v''" by simp_all
  have e: "image_reference ''fig 1'' ''png;base64,Zm9v'' = ''![fig 1](data:image/png;base64,Zm9v)''"
    by (simp add: image_reference_def)
  from C5_extractPartsFromResult [of "''# Title''" "''fig 1''" "''png;base64,Zm9v''"] a b c d e
  show ?thesis by simp
qed

text \<open>
  The claim as stated fails at the empty input: it holds no image reference, and the result is
  the empty list, not one text segment.
\<close>

theorem C5_empty_input_counterexample:
  "\<not> has_image_reference [] \<and> extractPartsFromResult [] = [] \<and>
   extractPartsFromResult [] \<noteq> [TextPart []]"
proof -
  have "regex_exec [] = None" by simp
  then have "\<not> has_image_reference []"
    using regex_exec_finds_image_reference [of "[]"] by simp
  then show ?thesis by (simp add: extract_empty)
qed


section \<open>Theorems on the conversion cache\<close>

lemmas docling_defs = CACHE_DIR_def CACHE_METADATA_FILE_def MAX_CACHE_SIZE_def process_cwd_def
  saveCache_def initializeCache_def splice1_def endsWith_def read_markdown_def cache_lookup_def
  safe_char_def safeName_def tempFilePath_def run_docling_def convert_def cache_insert_def
  pdfToMarkdown_def persisted_cache_def path_basename_def rmSync_recursive_force_def

lemmas example_cache_defs = cached_def example_cache_def full_cache_disk_def
  locked_cache_disk_def stale_cache_disk_def example_env_def failing_env_def

lemma tempFilePath_ne_index [simp]: "tempFilePath env n \<noteq> CACHE_METADATA_FILE"
proof
  assume "tempFilePath env n = CACHE_METADATA_FILE"
  then have "last (tempFilePath env n) = last CACHE_METADATA_FILE" by simp
  then show False by (simp add: tempFilePath_def CACHE_METADATA_FILE_def path_join_def)
qed

lemma index_ne_tempFilePath [simp]: "CACHE_METADATA_FILE \<noteq> tempFilePath env n"
  using tempFilePath_ne_index [of env n] by (rule not_sym)

lemma CACHE_DIR_ne_index [simp]: "CACHE_DIR \<noteq> CACHE_METADATA_FILE"
  by (simp add: CACHE_METADATA_FILE_def path_join_def)

lemma persisted_cache_cong:
  "nodes d' CACHE_METADATA_FILE = nodes d CACHE_METADATA_FILE \<Longrightarrow> denied d' = denied d \<Longrightarrow>
   persisted_cache d' = persisted_cache d"
  by (simp add: persisted_cache_def readFile_def split: option.splits)

lemma denied_saveCache [simp]: "denied (saveCache c d) = denied d"
  by (auto simp add: saveCache_def split: sum.splits dest: writeFile_Inr)

lemma nodes_saveCache_other:
  "p \<noteq> CACHE_METADATA_FILE \<Longrightarrow> nodes (saveCache c d) p = nodes d p"
  by (auto simp add: saveCache_def split: sum.splits dest: writeFile_Inr)

lemma persisted_saveCache:
  "persisted_cache (saveCache c d) = c \<or> saveCache c d = d"
proof (cases "writeFile CACHE_METADATA_FILE (JSON_stringify c) d")
  case (Inl e)
  then show ?thesis by (simp add: saveCache_def)
next
  case (Inr d')
  from writeFile_Inr [OF Inr] have "persisted_cache d' = c"
    by (simp add: persisted_cache_def readFile_def JSON_parse_def JSON_stringify_def)
  with Inr show ?thesis by (simp add: saveCache_def)
qed

lemma saveCache_writable:
  assumes "writable CACHE_METADATA_FILE d"
  shows "saveCache c d = d\<lparr>nodes := (nodes d)(CACHE_METADATA_FILE \<mapsto> File (Json c))\<rparr>"
proof -
  from assms have "writeFile CACHE_METADATA_FILE (JSON_stringify c) d
               = Inr (d\<lparr>nodes := (nodes d)(CACHE_METADATA_FILE \<mapsto> File (Json c))\<rparr>)"
    by (auto simp add: writable_def writeFile_def JSON_stringify_def
        split: option.splits node.splits)
  then show ?thesis by (simp add: saveCache_def)
qed

lemma saveCache_not_writable:
  assumes "\<not> writable CACHE_METADATA_FILE d"
  shows "saveCache c d = d"
proof -
  from assms have "\<exists>e. writeFile CACHE_METADATA_FILE (JSON_stringify c) d = Inl e"
    by (auto simp add: writable_def writeFile_def split: option.splits node.splits)
  then show ?thesis by (auto simp add: saveCache_def)
qed

lemma persisted_saveCache_writable:
  assumes "writable CACHE_METADATA_FILE d"
  shows "persisted_cache (saveCache c d) = c"
proof -
  from assms have "CACHE_METADATA_FILE \<notin> denied d" by (simp add: writable_def)
  then show ?thesis
    unfolding saveCache_writable [OF assms]
    by (simp add: persisted_cache_def readFile_def JSON_parse_def)
qed

lemma writable_saveCache:
  assumes "writable CACHE_METADATA_FILE d"
  shows "writable CACHE_METADATA_FILE (saveCache c d)"
  using assms unfolding saveCache_writable [OF assms] by (simp add: writable_def)

lemma length_persisted_saveCache:
  "length c \<le> n \<Longrightarrow> length (persisted_cache d) \<le> n \<Longrightarrow> length (persisted_cache (saveCache c d)) \<le> n"
  using persisted_saveCache [of c d] by auto

lemma persisted_mkdir:
  assumes "mkdir_recursive p d = Inr d'"
  shows "persisted_cache d' = persisted_cache d"
proof -
  from mkdir_recursive_Inr [OF assms] show ?thesis
  proof
    assume "d' = d" then show ?thesis by simp
  next
    assume a: "nodes d p = None \<and> d' = d\<lparr>nodes := (nodes d)(p \<mapsto> Directory [])\<rparr>"
    show ?thesis
    proof (cases "p = CACHE_METADATA_FILE")
      case True
      with a show ?thesis by (simp add: persisted_cache_def readFile_def)
    next
      case False
      with a show ?thesis by (intro persisted_cache_cong) simp_all
    qed
  qed
qed

lemma initializeCache_bound:
  assumes "initializeCache d = Inr (cache, d1)"
  shows "length cache \<le> length (persisted_cache d)"
    and "length (persisted_cache d1) \<le> length (persisted_cache d)"
proof -
  let ?mk = "if \<not> existsSync CACHE_DIR d then mkdir_recursive CACHE_DIR d else Inr d"
  from assms obtain d0 where mk: "?mk = Inr d0"
    by (cases ?mk) (auto simp add: initializeCache_def)
  then have p0: "persisted_cache d0 = persisted_cache d"
    by (auto split: if_splits intro: persisted_mkdir)
  have "length cache \<le> length (persisted_cache d0) \<and>
        length (persisted_cache d1) \<le> length (persisted_cache d0)"
  proof (cases "readFile CACHE_METADATA_FILE d0")
    case (Inl e)
    with assms mk show ?thesis by (auto simp add: initializeCache_def split: if_splits)
  next
    case (Inr cacheData)
    show ?thesis
    proof (cases "JSON_parse cacheData")
      case (Inl e)
      with assms mk Inr show ?thesis by (auto simp add: initializeCache_def split: if_splits)
    next
      case parsed: (Inr parsed)
      from Inr parsed have p: "persisted_cache d0 = parsed" by (simp add: persisted_cache_def)
      show ?thesis
      proof (cases "existsSync CACHE_METADATA_FILE d0")
        case False
        with assms mk show ?thesis by (auto simp add: initializeCache_def)
      next
        case True
        let ?c = "filter (\<lambda>entry. existsSync (outputPath entry) d0) parsed"
        from True assms mk Inr parsed have c: "cache = ?c" and d1: "d1 = saveCache ?c d0"
          by (auto simp add: initializeCache_def Let_def)
        have "length ?c \<le> length parsed" by simp
        with c d1 p length_persisted_saveCache [of ?c "length parsed" d0] show ?thesis by simp
      qed
    qed
  qed
  with p0 show "length cache \<le> length (persisted_cache d)"
    and "length (persisted_cache d1) \<le> length (persisted_cache d)" by simp_all
qed

lemma findIndex_less: "findIndex P xs = Some k \<Longrightarrow> k < length xs"
  by (induction xs arbitrary: k) (auto split: if_splits option.splits)

lemma findIndex_None: "findIndex P xs = None \<longleftrightarrow> (\<forall>x\<in>set xs. \<not> P x)"
  by (induction xs) (auto split: option.splits)

lemma length_splice1: "k < length xs \<Longrightarrow> length (splice1 k xs) = length xs - 1"
  by (auto simp add: splice1_def)

lemma cache_lookup_bound:
  assumes "cache_lookup env p d = (r, d')"
  shows "length (persisted_cache d') \<le> length (persisted_cache d)"
    and "r = Inr (Miss c) \<Longrightarrow> length c \<le> length (persisted_cache d)"
proof -
  have "length (persisted_cache d') \<le> length (persisted_cache d) \<and>
        (r = Inr (Miss c) \<longrightarrow> length c \<le> length (persisted_cache d))"
  proof (cases "initializeCache d")
    case (Inl e)
    with assms show ?thesis by (auto simp add: cache_lookup_def)
  next
    case (Inr a)
    then obtain pdfCache d1 where init: "initializeCache d = Inr (pdfCache, d1)" by (cases a) auto
    note b = initializeCache_bound [OF init]
    let ?P = "\<lambda>entry. path_normalize env (pdfPath entry) = path_normalize env p"
    show ?thesis
    proof (cases "findIndex ?P pdfCache")
      case None
      with assms init b show ?thesis by (auto simp add: cache_lookup_def)
    next
      case (Some k)
      from findIndex_less [OF Some] have k: "k < length pdfCache" .
      let ?e = "pdfCache ! k"
      show ?thesis
      proof (cases "existsSync (outputPath ?e) d1")
        case True
        let ?moved = "?e\<lparr>timestamp := date_now env\<rparr> # splice1 k pdfCache"
        from True assms init Some have "d' = saveCache ?moved d1" and "r \<noteq> Inr (Miss c)"
          by (auto simp add: cache_lookup_def Let_def)
        moreover from k have "length ?moved \<le> length (persisted_cache d)"
          using b(1) by (simp add: length_splice1)
        ultimately show ?thesis
          using length_persisted_saveCache [of ?moved "length (persisted_cache d)" d1] b(2)
          by simp
      next
        case False
        let ?sp = "splice1 k pdfCache"
        from False assms init Some have "d' = saveCache ?sp d1" and "r = Inr (Miss ?sp)"
          by (auto simp add: cache_lookup_def Let_def)
        moreover from k have "length ?sp \<le> length (persisted_cache d)"
          using b(1) by (simp add: length_splice1)
        ultimately show ?thesis
          using length_persisted_saveCache [of ?sp "length (persisted_cache d)" d1] b(2)
          by auto
      qed
    qed
  qed
  then show "length (persisted_cache d') \<le> length (persisted_cache d)"
    and "r = Inr (Miss c) \<Longrightarrow> length c \<le> length (persisted_cache d)" by simp_all
qed

lemma persisted_run_docling [simp]:
  "persisted_cache (run_docling env (tempFilePath env' n) d) = persisted_cache d"
  by (cases "exec_output env")
     (simp_all add: run_docling_def persisted_cache_def readFile_def split: option.splits)

lemma persisted_convert:
  "convert env (tempFilePath env' n) d = (r, d') \<Longrightarrow> persisted_cache d' = persisted_cache d"
  by (auto simp add: convert_def Let_def split: if_splits)

lemma rmSync_Inr:
  "rmSync_recursive_force p d = Inr d' \<Longrightarrow> d' = d \<or> d' = d\<lparr>nodes := (nodes d)(p := None)\<rparr>"
  by (auto simp add: rmSync_recursive_force_def split: option.splits if_splits)

lemma persisted_rm_other:
  assumes "rmSync_recursive_force p d = Inr d'" and "p \<noteq> CACHE_METADATA_FILE"
  shows "persisted_cache d' = persisted_cache d"
  using rmSync_Inr [OF assms(1)] assms(2)
  by (auto simp add: persisted_cache_def readFile_def split: option.splits)

lemma length_persisted_rm:
  "rmSync_recursive_force p d = Inr d' \<Longrightarrow> length (persisted_cache d') \<le> length (persisted_cache d)"
proof (cases "p = CACHE_METADATA_FILE")
  case True
  assume "rmSync_recursive_force p d = Inr d'"
  with True have "d' = d \<or> nodes d' CACHE_METADATA_FILE = None"
    by (auto simp add: rmSync_recursive_force_def split: option.splits if_splits)
  then show ?thesis by (auto simp add: persisted_cache_def readFile_def)
next
  case False
  assume "rmSync_recursive_force p d = Inr d'"
  from persisted_rm_other [OF this False] show ?thesis by simp
qed

lemma cache_insert_length:
  "length pdfCache \<le> MAX_CACHE_SIZE \<Longrightarrow> length (fst (cache_insert entry pdfCache d)) \<le> MAX_CACHE_SIZE"
  by (simp add: cache_insert_def Let_def)

lemma cache_insert_evicts_back:
  "MAX_CACHE_SIZE \<le> length pdfCache \<Longrightarrow> fst (cache_insert entry pdfCache d) = entry # butlast pdfCache"
  by (cases pdfCache) (auto simp add: cache_insert_def Let_def MAX_CACHE_SIZE_def)

lemma cache_insert_persisted:
  assumes "length pdfCache \<le> MAX_CACHE_SIZE" and "length (persisted_cache d) \<le> MAX_CACHE_SIZE"
  shows "length (persisted_cache (snd (cache_insert entry pdfCache d))) \<le> MAX_CACHE_SIZE"
proof (cases "length (entry # pdfCache) > MAX_CACHE_SIZE")
  case False
  with assms show ?thesis
    by (auto simp add: cache_insert_def Let_def intro: length_persisted_saveCache)
next
  case True
  let ?ev = "last (entry # pdfCache)"
  let ?d1 = "if existsSync (outputPath ?ev) d then
               (case rmSync_recursive_force (outputPath ?ev) d of Inl cleanupError \<Rightarrow> d | Inr d' \<Rightarrow> d')
             else d"
  have "length (persisted_cache ?d1) \<le> length (persisted_cache d)"
    by (cases "rmSync_recursive_force (outputPath ?ev) d") (auto dest: length_persisted_rm)
  with assms(2) have d1: "length (persisted_cache ?d1) \<le> MAX_CACHE_SIZE" by simp
  from assms(1) have "length (butlast (entry # pdfCache)) \<le> MAX_CACHE_SIZE" by simp
  from length_persisted_saveCache [OF this d1]
  have "length (persisted_cache (saveCache (butlast (entry # pdfCache)) ?d1)) \<le> MAX_CACHE_SIZE" .
  moreover from True
  have "snd (cache_insert entry pdfCache d) = saveCache (butlast (entry # pdfCache)) ?d1"
    unfolding cache_insert_def Let_def by (simp only: if_True snd_conv)
  ultimately show ?thesis by (simp only:)
qed

lemma pdfToMarkdown_bound:
  assumes "length (persisted_cache d) \<le> MAX_CACHE_SIZE"
  shows "length (persisted_cache (snd (pdfToMarkdown env p d))) \<le> MAX_CACHE_SIZE"
proof -
  obtain r d1 where lk: "cache_lookup env p d = (r, d1)" by (cases "cache_lookup env p d") auto
  from cache_lookup_bound(1) [OF lk] assms
  have b1: "length (persisted_cache d1) \<le> MAX_CACHE_SIZE" by simp
  show ?thesis
  proof (cases r)
    case (Inl e)
    with lk b1 show ?thesis by (simp add: pdfToMarkdown_def)
  next
    case (Inr res)
    show ?thesis
    proof (cases res)
      case (Hit m)
      with Inr lk b1 show ?thesis by (simp add: pdfToMarkdown_def)
    next
      case (Miss pdfCache)
      with Inr cache_lookup_bound(2) [OF lk, of pdfCache] assms
      have bc: "length pdfCache \<le> MAX_CACHE_SIZE" by simp
      let ?out = "tempFilePath env (path_normalize env p)"
      obtain r2 d2 where cv: "convert env ?out d1 = (r2, d2)"
        by (cases "convert env ?out d1") auto
      from persisted_convert [OF cv] b1
      have b2: "length (persisted_cache d2) \<le> MAX_CACHE_SIZE" by simp
      show ?thesis
      proof (cases r2)
        case (Inl error)
        have "length (persisted_cache
                (if existsSync ?out d2 then
                   (case rmSync_recursive_force ?out d2 of Inl cleanupError \<Rightarrow> d2 | Inr d3 \<Rightarrow> d3)
                 else d2)) \<le> MAX_CACHE_SIZE"
          using b2 by (cases "rmSync_recursive_force ?out d2") (auto simp add: persisted_rm_other)
        with Inl Miss Inr lk cv show ?thesis by (simp add: pdfToMarkdown_def Let_def)
      next
        case (Inr markdown)
        from cache_insert_persisted [OF bc b2]
        have "length (persisted_cache (snd (cache_insert
                \<lparr>pdfPath = path_normalize env p, outputPath = ?out, timestamp = date_now env\<rparr>
                pdfCache d2))) \<le> MAX_CACHE_SIZE" .
        with Inr Miss \<open>r = Inr res\<close> lk cv show ?thesis by (simp add: pdfToMarkdown_def Let_def)
      qed
    qed
  qed
qed

lemma run_conversions_bound:
  "length (persisted_cache d) \<le> MAX_CACHE_SIZE \<Longrightarrow>
   length (persisted_cache (run_conversions reqs d)) \<le> MAX_CACHE_SIZE"
  by (induction reqs arbitrary: d) (simp_all add: pdfToMarkdown_bound)

lemma cache_insert_removes:
  assumes "MAX_CACHE_SIZE \<le> length pdfCache"
    and "outputPath (last pdfCache) \<notin> denied d"
    and "outputPath (last pdfCache) \<noteq> CACHE_METADATA_FILE"
  shows "\<not> existsSync (outputPath (last pdfCache)) (snd (cache_insert entry pdfCache d))"
proof -
  let ?p = "outputPath (last pdfCache)"
  from assms(1) have ne: "pdfCache \<noteq> []" by (auto simp add: MAX_CACHE_SIZE_def)
  then have l: "last (entry # pdfCache) = last pdfCache" by simp
  let ?d1 = "if existsSync ?p d then
               (case rmSync_recursive_force ?p d of Inl cleanupError \<Rightarrow> d | Inr d' \<Rightarrow> d')
             else d"
  from assms(2) have "nodes ?d1 ?p = None"
    by (auto simp add: existsSync_def rmSync_recursive_force_def split: option.splits)
  with nodes_saveCache_other [OF assms(3), of "butlast (entry # pdfCache)" ?d1]
  have "nodes (saveCache (butlast (entry # pdfCache)) ?d1) ?p = None"
    by simp
  moreover from assms(1)
  have "snd (cache_insert entry pdfCache d) = saveCache (butlast (entry # pdfCache)) ?d1"
    unfolding cache_insert_def Let_def l by (simp add: MAX_CACHE_SIZE_def)
  ultimately show ?thesis by (simp only: existsSync_def simp_thms)
qed

text \<open>
  C4, as the code has it. Starting from an index of at most 5 entries, the index holds at most 5
  entries after every sequence of calls of pdfToMarkdown, and the cache an insertion returns has
  at most 5 entries when the cache it started from had. An insertion into a cache of 5 entries
  (or more) drops the entry at the back of the list, which is kept most recently used first.
  The output of the dropped entry is removed best-effort: it no longer exists after the
  insertion when the disk lets it be removed (the removal sits in a try with an empty handler)
  and it is not the index file itself.
\<close>

theorem C4_cache_bounded_lru_eviction:
  "(length (persisted_cache d) \<le> MAX_CACHE_SIZE \<longrightarrow>
      length (persisted_cache (run_conversions reqs d)) \<le> MAX_CACHE_SIZE) \<and>
   (length pdfCache \<le> MAX_CACHE_SIZE \<longrightarrow>
      length (fst (cache_insert entry pdfCache d)) \<le> MAX_CACHE_SIZE) \<and>
   (MAX_CACHE_SIZE \<le> length pdfCache \<longrightarrow>
      fst (cache_insert entry pdfCache d) = entry # butlast pdfCache \<and>
      (outputPath (last pdfCache) \<notin> denied d \<and>
       outputPath (last pdfCache) \<noteq> CACHE_METADATA_FILE \<longrightarrow>
         \<not> existsSync (outputPath (last pdfCache)) (snd (cache_insert entry pdfCache d))))"
  using run_conversions_bound [of d reqs] cache_insert_length [of pdfCache entry d]
    cache_insert_evicts_back [of pdfCache entry d] cache_insert_removes [of pdfCache d entry]
  by blast

theorem C4_cache_bounded_lru_eviction_witness:
  "length (persisted_cache (run_conversions [(example_env, ''/papers/f.pdf'')] full_cache_disk))
     \<le> MAX_CACHE_SIZE \<and>
   length (fst (cache_insert (cached ''f'' 6) example_cache full_cache_disk)) \<le> MAX_CACHE_SIZE \<and>
   fst (cache_insert (cached ''f'' 6) example_cache full_cache_disk)
     = cached ''f'' 6 # butlast example_cache \<and>
   \<not> existsSync (outputPath (last example_cache))
       (snd (cache_insert (cached ''f'' 6) example_cache full_cache_disk))"
proof -
  have h1: "length (persisted_cache full_cache_disk) \<le> MAX_CACHE_SIZE"
    by (simp add: example_cache_defs docling_defs fs_defs path_defs)
  have h2: "length example_cache \<le> MAX_CACHE_SIZE" "MAX_CACHE_SIZE \<le> length example_cache"
    by (simp_all add: example_cache_def MAX_CACHE_SIZE_def)
  have h3: "outputPath (last example_cache) \<notin> denied full_cache_disk"
    by (simp add: example_cache_defs)
  have h4: "outputPath (last example_cache) \<noteq> CACHE_METADATA_FILE"
    by (simp add: example_cache_defs docling_defs path_defs)
  from C4_cache_bounded_lru_eviction
         [of full_cache_disk "[(example_env, ''/papers/f.pdf'')]" example_cache "cached ''f'' 6"]
       h1 h2 h3 h4
  show ?thesis by blast
qed

text \<open>
  The claim as stated fails where the removal fails: with a full cache whose least recently used
  output is held open, a conversion of a new document succeeds, the entry leaves the index, and
  its output is still on disk.
\<close>

theorem C4_evicted_output_remains_counterexample:
  "persisted_cache locked_cache_disk = example_cache \<and>
   fst (pdfToMarkdown example_env ''/papers/f.pdf'' locked_cache_disk) = Inr (Raw ''# f'') \<and>
   persisted_cache (snd (pdfToMarkdown example_env ''/papers/f.pdf'' locked_cache_disk))
     = \<lparr>pdfPath = ''/papers/f.pdf'',
         outputPath = ''/work/.docling_cache/docling-f.pdf-17000000000006k3x9.md'',
         timestamp = 6\<rparr> # butlast example_cache \<and>
   cached ''a'' 1 = last example_cache \<and>
   existsSync (outputPath (cached ''a'' 1))
     (snd (pdfToMarkdown example_env ''/papers/f.pdf'' locked_cache_disk))"
  by (simp add: example_cache_defs docling_defs fs_defs path_defs Let_def)

subsection \<open>Stale entries\<close>

lemma existsSync_saveCache:
  "existsSync p d \<Longrightarrow> existsSync p (saveCache c d)"
  by (cases "writeFile CACHE_METADATA_FILE (JSON_stringify c) d")
     (auto simp add: saveCache_def existsSync_def dest!: writeFile_Inr)

lemma initializeCache_loaded:
  assumes "existsSync CACHE_DIR d" and "readFile CACHE_METADATA_FILE d = Inr (Json entries)"
  shows "initializeCache d =
           Inr (filter (\<lambda>entry. existsSync (outputPath entry) d) entries,
                saveCache (filter (\<lambda>entry. existsSync (outputPath entry) d) entries) d)"
proof -
  from assms(2) have "existsSync CACHE_METADATA_FILE d"
    by (auto simp add: readFile_def existsSync_def split: option.splits)
  with assms show ?thesis
    by (simp add: initializeCache_def JSON_parse_def Let_def)
qed

lemma set_splice1: "set (splice1 k xs) \<subseteq> set xs"
  by (auto simp add: splice1_def dest: in_set_takeD in_set_dropD)

lemma cache_lookup_purges:
  assumes "existsSync CACHE_DIR d" and "readFile CACHE_METADATA_FILE d = Inr (Json entries)"
    and "\<not> existsSync (outputPath e) d" and "writable CACHE_METADATA_FILE d"
  shows "e \<notin> set (persisted_cache (snd (cache_lookup env p d)))"
proof -
  let ?cache = "filter (\<lambda>entry. existsSync (outputPath entry) d) entries"
  let ?d1 = "saveCache ?cache d"
  let ?P = "\<lambda>entry. path_normalize env (pdfPath entry) = path_normalize env p"
  note init = initializeCache_loaded [OF assms(1,2)]
  from assms(3) have e: "e \<notin> set ?cache" by simp
  have p1: "persisted_cache ?d1 = ?cache" by (rule persisted_saveCache_writable [OF assms(4)])
  show ?thesis
  proof (cases "findIndex ?P ?cache")
    case None
    with init have "snd (cache_lookup env p d) = ?d1" by (simp add: cache_lookup_def)
    with p1 e show ?thesis by simp
  next
    case (Some k)
    let ?ce = "?cache ! k"
    from findIndex_less [OF Some] have "?ce \<in> set ?cache" by (rule nth_mem)
    then have ex: "existsSync (outputPath ?ce) d" by simp
    then have ex1: "existsSync (outputPath ?ce) ?d1" by (rule existsSync_saveCache)
    let ?moved = "?ce\<lparr>timestamp := date_now env\<rparr> # splice1 k ?cache"
    from init Some ex1 have "snd (cache_lookup env p d) = saveCache ?moved ?d1"
      by (simp add: cache_lookup_def Let_def)
    moreover have "persisted_cache (saveCache ?moved ?d1) = ?moved"
      by (rule persisted_saveCache_writable [OF writable_saveCache [OF assms(4)]])
    moreover from ex assms(3) have "e \<noteq> ?ce\<lparr>timestamp := date_now env\<rparr>" by auto
    moreover from e set_splice1 [of k ?cache] have "e \<notin> set (splice1 k ?cache)" by auto
    ultimately show ?thesis by simp
  qed
qed

lemma cache_lookup_stale_is_miss:
  assumes "existsSync CACHE_DIR d" and "readFile CACHE_METADATA_FILE d = Inr (Json entries)"
    and "\<forall>x\<in>set entries. path_normalize env (pdfPath x) = path_normalize env p \<longrightarrow>
           \<not> existsSync (outputPath x) d"
  shows "cache_lookup env p d =
           (Inr (Miss (filter (\<lambda>entry. existsSync (outputPath entry) d) entries)),
            saveCache (filter (\<lambda>entry. existsSync (outputPath entry) d) entries) d)"
proof -
  let ?cache = "filter (\<lambda>entry. existsSync (outputPath entry) d) entries"
  let ?P = "\<lambda>entry. path_normalize env (pdfPath entry) = path_normalize env p"
  from assms(3) have "findIndex ?P ?cache = None" by (auto simp add: findIndex_None)
  with initializeCache_loaded [OF assms(1,2)] show ?thesis
    by (simp add: cache_lookup_def)
qed

lemma saveCache_twice: "saveCache c (saveCache c d) = saveCache c d"
proof (cases "writable CACHE_METADATA_FILE d")
  case True
  from saveCache_writable [OF writable_saveCache [OF True], of c c] saveCache_writable [OF True, of c]
  show ?thesis by simp
next
  case False
  then show ?thesis by (simp add: saveCache_not_writable)
qed

lemma cache_lookup_stale_again:
  assumes "existsSync CACHE_DIR d" and "readFile CACHE_METADATA_FILE d = Inr (Json entries)"
    and "\<forall>x\<in>set entries. path_normalize env (pdfPath x) = path_normalize env p \<longrightarrow>
           \<not> existsSync (outputPath x) d"
  shows "cache_lookup env p (snd (cache_lookup env p d)) = cache_lookup env p d"
proof (cases "writable CACHE_METADATA_FILE d")
  case False
  from cache_lookup_stale_is_miss [OF assms] False
  have "snd (cache_lookup env p d) = d" by (simp add: saveCache_not_writable)
  then show ?thesis by simp
next
  case True
  let ?cache = "filter (\<lambda>entry. existsSync (outputPath entry) d) entries"
  let ?d1 = "saveCache ?cache d"
  note first = cache_lookup_stale_is_miss [OF assms]
  have dir: "existsSync CACHE_DIR ?d1" by (rule existsSync_saveCache [OF assms(1)])
  from True have "CACHE_METADATA_FILE \<notin> denied d" by (simp add: writable_def)
  then have rd: "readFile CACHE_METADATA_FILE ?d1 = Inr (Json ?cache)"
    unfolding saveCache_writable [OF True] by (simp add: readFile_def)
  have keep: "filter (\<lambda>entry. existsSync (outputPath entry) ?d1) ?cache = ?cache"
  proof (rule filter_True, rule ballI)
    fix x assume "x \<in> set ?cache"
    then have "existsSync (outputPath x) d" by simp
    then show "existsSync (outputPath x) ?d1" by (rule existsSync_saveCache)
  qed
  from assms(3) have st: "\<forall>x\<in>set ?cache. path_normalize env (pdfPath x) = path_normalize env p \<longrightarrow>
           \<not> existsSync (outputPath x) ?d1" by auto
  from cache_lookup_stale_is_miss [OF dir rd st] keep saveCache_twice [of ?cache d]
  have "cache_lookup env p ?d1 = (Inr (Miss ?cache), ?d1)" by simp
  with first show ?thesis by simp
qed

text \<open>
  C7, as the code has it. Let the cache directory exist and the index file list an entry whose
  recorded output no longer exists on disk. When every entry recorded for the looked-up path is
  stale in this way, the lookup is a miss; the entry is not in the cache the miss goes on with;
  a second lookup of the path on the disk the first one leaves is again the same miss; what
  pdfToMarkdown returns is what the conversion returns on that disk; and when the conversion
  command fails, pdfToMarkdown rejects with its error. The removal is written to the index
  file before anything else is done on the miss, and \<^verbatim>\<open>saveCache\<close> logs and ignores a write
  that fails. So when the disk accepts a write of the index file, the index no longer lists the
  entry after the lookup of any path, it is the cache without the stale entries after the miss,
  and it stays so when the conversion command fails; and when the disk refuses the write, the
  miss leaves the disk as it was, the entry still in the index file.
\<close>

theorem C7_stale_entry_is_purged:
  assumes "existsSync CACHE_DIR d" and "readFile CACHE_METADATA_FILE d = Inr (Json entries)"
    and "e \<in> set entries" and "\<not> existsSync (outputPath e) d"
  shows "(writable CACHE_METADATA_FILE d \<longrightarrow>
            e \<notin> set (persisted_cache (snd (cache_lookup env p d)))) \<and>
         ((\<forall>x\<in>set entries. path_normalize env (pdfPath x) = path_normalize env p \<longrightarrow>
             \<not> existsSync (outputPath x) d) \<longrightarrow>
            fst (cache_lookup env p d)
              = Inr (Miss (filter (\<lambda>entry. existsSync (outputPath entry) d) entries)) \<and>
            e \<notin> set (filter (\<lambda>entry. existsSync (outputPath entry) d) entries) \<and>
            cache_lookup env p (snd (cache_lookup env p d)) = cache_lookup env p d \<and>
            fst (pdfToMarkdown env p d)
              = fst (convert env (tempFilePath env (path_normalize env p))
                       (snd (cache_lookup env p d))) \<and>
            (\<not> exec_ok env \<longrightarrow> fst (pdfToMarkdown env p d) = Inl ExecError) \<and>
            (writable CACHE_METADATA_FILE d \<longrightarrow>
               persisted_cache (snd (cache_lookup env p d))
                 = filter (\<lambda>entry. existsSync (outputPath entry) d) entries \<and>
               (\<not> exec_ok env \<longrightarrow>
                  persisted_cache (snd (pdfToMarkdown env p d))
                    = filter (\<lambda>entry. existsSync (outputPath entry) d) entries)) \<and>
            (\<not> writable CACHE_METADATA_FILE d \<longrightarrow>
               snd (cache_lookup env p d) = d \<and>
               e \<in> set (persisted_cache (snd (cache_lookup env p d)))))"
proof (intro conjI impI)
  assume "writable CACHE_METADATA_FILE d"
  then show "e \<notin> set (persisted_cache (snd (cache_lookup env p d)))"
    by (rule cache_lookup_purges [OF assms(1,2,4)])
next
  let ?cache = "filter (\<lambda>entry. existsSync (outputPath entry) d) entries"
  let ?d1 = "saveCache ?cache d"
  let ?out = "tempFilePath env (path_normalize env p)"
  let ?d2 = "run_docling env ?out ?d1"
  let ?d3 = "if existsSync ?out ?d2 then
               (case rmSync_recursive_force ?out ?d2 of Inl cleanupError \<Rightarrow> ?d2 | Inr d3 \<Rightarrow> d3)
             else ?d2"
  assume st: "\<forall>x\<in>set entries. path_normalize env (pdfPath x) = path_normalize env p \<longrightarrow>
             \<not> existsSync (outputPath x) d"
  note miss = cache_lookup_stale_is_miss [OF assms(1,2) st]
  from miss show "fst (cache_lookup env p d) = Inr (Miss ?cache)" by simp
  from assms(4) show "e \<notin> set ?cache" by simp
  show "cache_lookup env p (snd (cache_lookup env p d)) = cache_lookup env p d"
    by (rule cache_lookup_stale_again [OF assms(1,2) st])
  from miss
  show "fst (pdfToMarkdown env p d)
          = fst (convert env (tempFilePath env (path_normalize env p))
                   (snd (cache_lookup env p d)))"
    by (cases "convert env (tempFilePath env (path_normalize env p)) ?d1")
       (auto simp add: pdfToMarkdown_def Let_def split: sum.splits)
  have r: "pdfToMarkdown env p d = (Inl ExecError, ?d3)" if "\<not> exec_ok env"
  proof -
    from that have "convert env ?out ?d1 = (Inl ExecError, ?d2)"
      by (simp add: convert_def Let_def)
    with miss show ?thesis by (simp add: pdfToMarkdown_def Let_def)
  qed
  {
    assume "\<not> exec_ok env"
    from r [OF this] show "fst (pdfToMarkdown env p d) = Inl ExecError" by simp
  }
  {
    assume w: "writable CACHE_METADATA_FILE d"
    have p1: "persisted_cache ?d1 = ?cache" by (rule persisted_saveCache_writable [OF w])
    with miss show "persisted_cache (snd (cache_lookup env p d)) = ?cache" by simp
    {
      assume "\<not> exec_ok env"
      note r' = r [OF this]
      have "persisted_cache ?d3 = persisted_cache ?d2"
        by (cases "rmSync_recursive_force ?out ?d2") (auto simp add: persisted_rm_other)
      with p1 r' show "persisted_cache (snd (pdfToMarkdown env p d)) = ?cache" by simp
    }
  }
  {
    assume nw: "\<not> writable CACHE_METADATA_FILE d"
    with miss show same: "snd (cache_lookup env p d) = d" by (simp add: saveCache_not_writable)
    from assms(2,3) have "e \<in> set (persisted_cache d)"
      by (simp add: persisted_cache_def JSON_parse_def)
    with same show "e \<in> set (persisted_cache (snd (cache_lookup env p d)))" by simp
  }
qed

theorem C7_stale_entry_is_purged_witness:
  "fst (cache_lookup failing_env ''/papers/b.pdf'' stale_cache_disk) = Inr (Miss [cached ''a'' 1]) \<and>
   persisted_cache (snd (cache_lookup failing_env ''/papers/b.pdf'' stale_cache_disk))
     = [cached ''a'' 1] \<and>
   cache_lookup failing_env ''/papers/b.pdf''
       (snd (cache_lookup failing_env ''/papers/b.pdf'' stale_cache_disk))
     = cache_lookup failing_env ''/papers/b.pdf'' stale_cache_disk \<and>
   fst (pdfToMarkdown failing_env ''/papers/b.pdf'' stale_cache_disk) = Inl ExecError \<and>
   persisted_cache (snd (pdfToMarkdown failing_env ''/papers/b.pdf'' stale_cache_disk))
     = [cached ''a'' 1] \<and>
   fst (cache_lookup failing_env ''/papers/b.pdf'' read_only_cache_disk)
     = Inr (Miss [cached ''a'' 1]) \<and>
   snd (cache_lookup failing_env ''/papers/b.pdf'' read_only_cache_disk) = read_only_cache_disk"
proof -
  let ?entries = "[cached ''b'' 2, cached ''a'' 1]"
  have h1: "existsSync CACHE_DIR stale_cache_disk"
    by (simp add: example_cache_defs docling_defs fs_defs path_defs)
  have h2: "readFile CACHE_METADATA_FILE stale_cache_disk = Inr (Json ?entries)"
    by (simp add: example_cache_defs docling_defs fs_defs path_defs)
  have h3: "cached ''b'' 2 \<in> set ?entries" by simp
  have h4: "\<not> existsSync (outputPath (cached ''b'' 2)) stale_cache_disk"
    by (simp add: example_cache_defs docling_defs fs_defs path_defs)
  have h5: "\<forall>x\<in>set ?entries.
              path_normalize failing_env (pdfPath x) = path_normalize failing_env ''/papers/b.pdf'' \<longrightarrow>
              \<not> existsSync (outputPath x) stale_cache_disk"
    by (simp add: example_cache_defs docling_defs fs_defs path_defs)
  have h6: "\<not> exec_ok failing_env" by (simp add: failing_env_def)
  have h7: "writable CACHE_METADATA_FILE stale_cache_disk"
    by (simp add: example_cache_defs docling_defs fs_defs path_defs)
  have f: "filter (\<lambda>entry. existsSync (outputPath entry) stale_cache_disk) ?entries = [cached ''a'' 1]"
    by (simp add: example_cache_defs docling_defs fs_defs path_defs)
  have g1: "existsSync CACHE_DIR read_only_cache_disk"
    by (simp add: read_only_cache_disk_def example_cache_defs docling_defs fs_defs path_defs)
  have g2: "readFile CACHE_METADATA_FILE read_only_cache_disk = Inr (Json ?entries)"
    by (simp add: read_only_cache_disk_def example_cache_defs docling_defs fs_defs path_defs)
  have g4: "\<not> existsSync (outputPath (cached ''b'' 2)) read_only_cache_disk"
    by (simp add: read_only_cache_disk_def example_cache_defs docling_defs fs_defs path_defs)
  have g5: "\<forall>x\<in>set ?entries.
              path_normalize failing_env (pdfPath x) = path_normalize failing_env ''/papers/b.pdf'' \<longrightarrow>
              \<not> existsSync (outputPath x) read_only_cache_disk"
    by (simp add: read_only_cache_disk_def example_cache_defs docling_defs fs_defs path_defs)
  have g7: "\<not> writable CACHE_METADATA_FILE read_only_cache_disk"
    by (simp add: read_only_cache_disk_def writable_def)
  have g: "filter (\<lambda>entry. existsSync (outputPath entry) read_only_cache_disk) ?entries
             = [cached ''a'' 1]"
    by (simp add: read_only_cache_disk_def example_cache_defs docling_defs fs_defs path_defs)
  from C7_stale_entry_is_purged [OF h1 h2 h3 h4, of failing_env "''/papers/b.pdf''"] h5 h6 h7
  have a: "fst (cache_lookup failing_env ''/papers/b.pdf'' stale_cache_disk)
             = Inr (Miss [cached ''a'' 1]) \<and>
           persisted_cache (snd (cache_lookup failing_env ''/papers/b.pdf'' stale_cache_disk))
             = [cached ''a'' 1] \<and>
           cache_lookup failing_env ''/papers/b.pdf''
               (snd (cache_lookup failing_env ''/papers/b.pdf'' stale_cache_disk))
             = cache_lookup failing_env ''/papers/b.pdf'' stale_cache_disk \<and>
           fst (pdfToMarkdown failing_env ''/papers/b.pdf'' stale_cache_disk) = Inl ExecError \<and>
           persisted_cache (snd (pdfToMarkdown failing_env ''/papers/b.pdf'' stale_cache_disk))
             = [cached ''a'' 1]"
    unfolding f by blast
  from C7_stale_entry_is_purged [OF g1 g2 h3 g4, of failing_env "''/papers/b.pdf''"] g5 g7
  have b: "fst (cache_lookup failing_env ''/papers/b.pdf'' read_only_cache_disk)
             = Inr (Miss [cached ''a'' 1]) \<and>
           snd (cache_lookup failing_env ''/papers/b.pdf'' read_only_cache_disk)
             = read_only_cache_disk"
    unfolding g by blast
  from a b show ?thesis by blast
qed

text \<open>
  The claim as stated fails where the index file cannot be written: the index lists an entry for
  the path whose output is gone and the index file is read-only; the lookup is a miss, and the
  index file lists the entry afterwards as it did before, so a process that loads the index
  from disk finds it again.
\<close>

theorem C7_removal_not_persisted_counterexample:
  "persisted_cache read_only_cache_disk = [cached ''b'' 2, cached ''a'' 1] \<and>
   pdfPath (cached ''b'' 2) = ''/papers/b.pdf'' \<and>
   \<not> existsSync (outputPath (cached ''b'' 2)) read_only_cache_disk \<and>
   fst (cache_lookup failing_env ''/papers/b.pdf'' read_only_cache_disk)
     = Inr (Miss [cached ''a'' 1]) \<and>
   persisted_cache (snd (cache_lookup failing_env ''/papers/b.pdf'' read_only_cache_disk))
     = [cached ''b'' 2, cached ''a'' 1]"
  by (simp add: read_only_cache_disk_def example_cache_defs docling_defs fs_defs path_defs Let_def)

end
